theory Spec2Isabelle
  imports Complex_Main "HOL-Library.Word"
begin

unbundle bit_operations_syntax

section \<open>Machine values of \<open>matrix_ncurses.c\<close>\<close>

text \<open>
  The program is one C file. Its \<open>int\<close> values are modelled as HOL integers together
  with the range of a 32-bit \<open>int\<close>; an operation whose C result is undefined (signed
  overflow, a remainder by zero, a conversion of a \<open>double\<close> that does not fit) returns an
  \<open>error\<close> instead of a value. The unsigned values of the generator are words.

  A \<open>double\<close> is modelled as a finite real, one of the two infinities, or NaN. Finite
  arithmetic is exact (rounding is not modelled); the special values are kept because
  they change the outcome of the comparisons the program makes.
\<close>

type_synonym u32 = "32 word"
type_synonym u64 = "64 word"

datatype error = DivByZero | SignedOverflow | FloatToIntOverflow

definition INT_MAX :: int where
  "INT_MAX = 2147483647"

definition INT_MIN :: int where
  "INT_MIN = - 2147483648"

definition UINT32_MAX :: u32 where
  "UINT32_MAX = 4294967295"

text \<open>The result of an \<open>int\<close> expression: defined only inside the range of the type.\<close>

definition int_result :: "int \<Rightarrow> error + int" where
  "int_result v = (if INT_MIN \<le> v \<and> v \<le> INT_MAX then Inr v else Inl SignedOverflow)"

datatype dbl = Num real | PInf | NInf | NaN

text \<open>\<open>a < b\<close> on doubles: false as soon as one side is NaN.\<close>

fun dlt :: "dbl \<Rightarrow> dbl \<Rightarrow> bool" where
  "dlt NaN _ = False"
| "dlt _ NaN = False"
| "dlt (Num a) (Num b) = (a < b)"
| "dlt (Num a) PInf = True"
| "dlt (Num a) NInf = False"
| "dlt PInf _ = False"
| "dlt NInf NInf = False"
| "dlt NInf _ = True"

text \<open>\<open>a * b\<close> on doubles.\<close>

fun dmul :: "dbl \<Rightarrow> dbl \<Rightarrow> dbl" where
  "dmul NaN _ = NaN"
| "dmul _ NaN = NaN"
| "dmul (Num a) (Num b) = Num (a * b)"
| "dmul (Num a) PInf = (if a = 0 then NaN else if 0 < a then PInf else NInf)"
| "dmul (Num a) NInf = (if a = 0 then NaN else if 0 < a then NInf else PInf)"
| "dmul PInf (Num b) = (if b = 0 then NaN else if 0 < b then PInf else NInf)"
| "dmul NInf (Num b) = (if b = 0 then NaN else if 0 < b then NInf else PInf)"
| "dmul PInf PInf = PInf"
| "dmul PInf NInf = NInf"
| "dmul NInf PInf = NInf"
| "dmul NInf NInf = PInf"

text \<open>\<open>a / k\<close> for a finite constant \<open>k > 0\<close> (the program only divides by \<open>200.0\<close>).\<close>

fun ddiv :: "dbl \<Rightarrow> real \<Rightarrow> dbl" where
  "ddiv (Num a) k = Num (a / k)"
| "ddiv PInf k = PInf"
| "ddiv NInf k = NInf"
| "ddiv NaN k = NaN"

text \<open>
  \<open>(int)d\<close>: truncation towards zero, undefined when the truncated value is not an
  \<open>int\<close> (so for every infinity and NaN).
\<close>

fun dbl_to_int :: "dbl \<Rightarrow> error + int" where
  "dbl_to_int (Num a) =
     (let t = (if 0 \<le> a then \<lfloor>a\<rfloor> else \<lceil>a\<rceil>)
      in if INT_MIN \<le> t \<and> t \<le> INT_MAX then Inr t else Inl FloatToIntOverflow)"
| "dbl_to_int PInf = Inl FloatToIntOverflow"
| "dbl_to_int NInf = Inl FloatToIntOverflow"
| "dbl_to_int NaN = Inl FloatToIntOverflow"

section \<open>Random helper\<close>

text \<open>
  \<open>rnd32\<close> keeps a static 64-bit state \<open>s\<close>, initially 0. On a call with \<open>s = 0\<close> it is
  seeded with \<open>((uint64_t)time(NULL) ^ (uintptr_t)&s) | 1\<close>; the value of
  \<open>time(NULL) ^ &s\<close> comes from the environment and is the field \<open>seed_src\<close>.
\<close>

record rng =
  s :: u64
  seed_src :: u64

definition rnd32 :: "rng \<Rightarrow> u32 \<times> rng" where
  "rnd32 g =
     (let s0 = (if s g = 0 then seed_src g OR 1 else s g);
          s1 = s0 XOR push_bit 7 s0;
          s2 = s1 XOR drop_bit 9 s1;
          s3 = s2 XOR push_bit 8 s2
      in (ucast s3, g\<lparr>s := s3\<rparr>))"

text \<open>
  \<open>irand(n) = (int)(rnd32() % (uint32_t)n)\<close>. The remainder is undefined when
  \<open>(uint32_t)n\<close> is 0; the conversion back to \<open>int\<close> is the two's complement reading.
\<close>

definition irand :: "int \<Rightarrow> rng \<Rightarrow> error + (int \<times> rng)" where
  "irand n g =
     (let (v, g') = rnd32 g; m = (word_of_int n :: u32)
      in if m = 0 then Inl DivByZero else Inr (sint (v mod m), g'))"

text \<open>\<open>drand() = rnd32() / (double)UINT32_MAX\<close>: always a finite double.\<close>

definition drand :: "rng \<Rightarrow> real \<times> rng" where
  "drand g = (let (v, g') = rnd32 g in (real (unat v) / real (unat UINT32_MAX), g'))"

section \<open>Columns\<close>

record Column =
  head_y :: int
  tail :: int
  speed :: dbl
  active :: bool

text \<open>The options that \<open>main\<close> reads from its arguments.\<close>

record config =
  speed_mul :: dbl
  density :: dbl
  bold_head :: bool
  fade_trail :: bool
  target_fps :: int

text \<open>Sequencing of fallible steps.\<close>

definition bnd :: "error + 'a \<Rightarrow> ('a \<Rightarrow> error + 'b) \<Rightarrow> error + 'b" where
  "bnd m f = (case m of Inl e \<Rightarrow> Inl e | Inr x \<Rightarrow> f x)"

text \<open>
  The body of the loop that initialises the columns (at startup, and for the new
  columns after a resize): activity roll, tail, speed, head, in this order.
\<close>

definition init_column :: "config \<Rightarrow> int \<Rightarrow> rng \<Rightarrow> error + (Column \<times> rng)" where
  "init_column cfg maxy g0 =
     (let (d1, g1) = drand g0 in
      bnd (irand 20 g1) (\<lambda>(t, g2).
      bnd (int_result (5 + t)) (\<lambda>tl.
      let (d2, g3) = drand g2 in
      bnd (irand maxy g3) (\<lambda>(h, g4).
      bnd (int_result (- h)) (\<lambda>hd.
      Inr (\<lparr>head_y = hd, tail = tl,
            speed = dmul (Num (0.4 + d2 * 1.2)) (speed_mul cfg),
            active = dlt (Num d1) (density cfg)\<rparr>, g4))))))"

fun init_columns :: "config \<Rightarrow> int \<Rightarrow> nat \<Rightarrow> rng \<Rightarrow> error + (Column list \<times> rng)" where
  "init_columns cfg maxy 0 g = Inr ([], g)"
| "init_columns cfg maxy (Suc n) g =
     bnd (init_column cfg maxy g) (\<lambda>(c, g1).
     bnd (init_columns cfg maxy n g1) (\<lambda>(cs, g2). Inr (c # cs, g2)))"

text \<open>
  The update of one column in the simulation loop. First the head advance of an
  active column:
  \<open>head_y += speed < 1.0 ? (drand() < speed ? 1 : 0) : (int)speed\<close>.
\<close>

definition advance_head :: "Column \<Rightarrow> rng \<Rightarrow> error + (Column \<times> rng)" where
  "advance_head c g =
     bnd (if dlt (speed c) (Num 1)
          then (let (d, g1) = drand g in Inr (if dlt (Num d) (speed c) then 1 else 0, g1))
          else bnd (dbl_to_int (speed c)) (\<lambda>i. Inr (i, g))) (\<lambda>(step, g1).
     bnd (int_result (head_y c + step)) (\<lambda>h.
     Inr (c\<lparr>head_y := h\<rparr>, g1)))"

text \<open>The reset of a column whose tail has left the screen: activity roll, head, tail, speed.\<close>

definition reset_column :: "config \<Rightarrow> int \<Rightarrow> Column \<Rightarrow> rng \<Rightarrow> error + (Column \<times> rng)" where
  "reset_column cfg maxy c g0 =
     (let (d1, g1) = drand g0 in
      bnd (irand maxy g1) (\<lambda>(h, g2).
      bnd (int_result (- h)) (\<lambda>hd.
      bnd (irand 20 g2) (\<lambda>(t, g3).
      bnd (int_result (5 + t)) (\<lambda>tl.
      let (d2, g4) = drand g3 in
      Inr (c\<lparr>active := dlt (Num d1) (density cfg), head_y := hd, tail := tl,
             speed := dmul (Num (0.4 + d2 * 1.2)) (speed_mul cfg)\<rparr>, g4))))))"

text \<open>The start of new rain in an idle column: head, tail, speed.\<close>

definition start_column :: "config \<Rightarrow> int \<Rightarrow> Column \<Rightarrow> rng \<Rightarrow> error + (Column \<times> rng)" where
  "start_column cfg maxy c g0 =
     bnd (irand maxy g0) (\<lambda>(h, g1).
     bnd (int_result (- h)) (\<lambda>hd.
     bnd (irand 20 g1) (\<lambda>(t, g2).
     bnd (int_result (5 + t)) (\<lambda>tl.
     let (d2, g3) = drand g2 in
     Inr (c\<lparr>active := True, head_y := hd, tail := tl,
            speed := dmul (Num (0.4 + d2 * 1.2)) (speed_mul cfg)\<rparr>, g3)))))"

definition tick_column :: "config \<Rightarrow> int \<Rightarrow> Column \<Rightarrow> rng \<Rightarrow> error + (Column \<times> rng)" where
  "tick_column cfg maxy c g =
     (if active c then
        bnd (advance_head c g) (\<lambda>(c1, g1).
        bnd (int_result (head_y c1 - tail c1)) (\<lambda>t.
        if t > maxy then reset_column cfg maxy c1 g1 else Inr (c1, g1)))
      else
        (let (d, g1) = drand g in
         if dlt (Num d) (ddiv (density cfg) 200) then start_column cfg maxy c g1
         else Inr (c, g1)))"

text \<open>The simulation loop \<open>for(x = 0; x < maxx; x++)\<close> over the column array.\<close>

fun simulate :: "config \<Rightarrow> int \<Rightarrow> Column list \<Rightarrow> rng \<Rightarrow> error + (Column list \<times> rng)" where
  "simulate cfg maxy [] g = Inr ([], g)"
| "simulate cfg maxy (c # cs) g =
     bnd (tick_column cfg maxy c g) (\<lambda>(c', g1).
     bnd (simulate cfg maxy cs g1) (\<lambda>(cs', g2). Inr (c' # cs', g2)))"

section \<open>Drawing\<close>

text \<open>
  The glyph table \<open>KATAKANA\<close> has 55 half-width katakana and the 10 digits. What is
  written to the screen is not modelled; the drawing pass matters here because it draws
  one glyph index from the generator for every visible cell of every active column.
\<close>

definition KATAKANA_SIZE :: int where
  "KATAKANA_SIZE = 65"

fun draw_rows :: "int \<Rightarrow> int list \<Rightarrow> rng \<Rightarrow> error + rng" where
  "draw_rows maxy [] g = Inr g"
| "draw_rows maxy (y # ys) g =
     (if y < 0 \<or> y \<ge> maxy then draw_rows maxy ys g
      else bnd (irand KATAKANA_SIZE g) (\<lambda>(wc, g1). draw_rows maxy ys g1))"

text \<open>
  \<open>for(int y = tail_start; y <= head; y++)\<close>: the rows from \<open>tail_start\<close> to \<open>head\<close>;
  the last increment computes \<open>head + 1\<close>.
\<close>

definition draw_column :: "int \<Rightarrow> Column \<Rightarrow> rng \<Rightarrow> error + rng" where
  "draw_column maxy c g =
     (if \<not> active c then Inr g
      else bnd (int_result (head_y c - tail c)) (\<lambda>tail_start.
           if tail_start \<le> head_y c
           then bnd (int_result (head_y c + 1)) (\<lambda>_. draw_rows maxy [tail_start..head_y c] g)
           else Inr g))"

fun draw :: "int \<Rightarrow> Column list \<Rightarrow> rng \<Rightarrow> error + rng" where
  "draw maxy [] g = Inr g"
| "draw maxy (c # cs) g = bnd (draw_column maxy c g) (\<lambda>g1. draw maxy cs g1)"

section \<open>The main loop\<close>

record state =
  cols :: "Column list"
  maxx :: int
  maxy :: int
  paused :: bool
  rng :: rng

text \<open>
  What one iteration reads from outside: the key from \<open>getch\<close>, the size from
  \<open>getmaxyx\<close>, and whether a \<open>calloc\<close> made in this iteration succeeds.
\<close>

record frame =
  key :: int
  ny :: int
  nx :: int
  alloc_ok :: bool

text \<open>The array \<open>calloc\<close> returns is zero-filled.\<close>

definition zero_column :: Column where
  "zero_column = \<lparr>head_y = 0, tail = 0, speed = Num 0, active = False\<rparr>"

text \<open>
  The resize block. \<open>None\<close> is the \<open>break\<close> taken when \<open>calloc\<close> fails. The old
  columns below both widths are copied, the columns from the old width on are
  initialised with the new height.
\<close>

definition handle_resize :: "config \<Rightarrow> state \<Rightarrow> frame \<Rightarrow> error + state option" where
  "handle_resize cfg st f =
     (if nx f \<noteq> maxx st \<or> ny f \<noteq> maxy st then
        (if \<not> alloc_ok f then Inr None
         else
           (let ncols0 = replicate (nat (nx f)) zero_column;
                k = nat (min (nx f) (maxx st));
                ncols1 = take k (cols st) @ drop k ncols0
            in bnd (init_columns cfg (ny f) (nat (nx f - maxx st)) (rng st)) (\<lambda>(new, g).
               Inr (Some (st\<lparr>cols := (if maxx st < nx f then take (nat (maxx st)) ncols1 @ new
                                        else ncols1),
                              maxx := nx f, maxy := ny f, rng := g\<rparr>)))))
      else Inr (Some st))"

datatype 'a ctl = Next 'a | Break 'a

definition iteration :: "config \<Rightarrow> state \<Rightarrow> frame \<Rightarrow> error + state ctl" where
  "iteration cfg st f =
     (if key f = 113 \<or> key f = 27 then Inr (Break st)
      else
        (let st1 = (if key f = 112 \<or> key f = 80 then st\<lparr>paused := \<not> paused st\<rparr> else st)
         in bnd (handle_resize cfg st1 f) (\<lambda>r.
            case r of
              None \<Rightarrow> Inr (Break st1)
            | Some st2 \<Rightarrow>
                if paused st2 then Inr (Next st2)
                else bnd (simulate cfg (maxy st2) (cols st2) (rng st2)) (\<lambda>(cs, g1).
                     bnd (draw (maxy st2) cs g1) (\<lambda>g2.
                     Inr (Next (st2\<lparr>cols := cs, rng := g2\<rparr>)))))))"

text \<open>
  \<open>while(1)\<close> over the frames the environment supplies. \<open>Next\<close> is returned when the
  frames run out with the loop still running, \<open>Break\<close> when the loop was left.
\<close>

fun main_loop :: "config \<Rightarrow> state \<Rightarrow> frame list \<Rightarrow> error + state ctl" where
  "main_loop cfg st [] = Inr (Next st)"
| "main_loop cfg st (f # fs) =
     bnd (iteration cfg st f) (\<lambda>r.
     case r of Break st' \<Rightarrow> Inr (Break st') | Next st' \<Rightarrow> main_loop cfg st' fs)"

section \<open>Arguments and \<open>main\<close>\<close>

definition default_config :: config where
  "default_config =
     \<lparr>speed_mul = Num 1, density = Num 0.25, bold_head = False, fade_trail = True,
      target_fps = 60\<rparr>"

text \<open>
  The argument loop over \<open>argv[1..]\<close>. \<open>atof\<close> and \<open>atoi\<close> are the C library's and are
  parameters. \<open>Inl code\<close> is the \<open>return code\<close> after \<open>usage\<close>.
\<close>

fun parse_args :: "(string \<Rightarrow> dbl) \<Rightarrow> (string \<Rightarrow> int) \<Rightarrow> config \<Rightarrow> string list \<Rightarrow> int + config" where
  "parse_args atof atoi cfg [] = Inr cfg"
| "parse_args atof atoi cfg (a # rest) =
     (if a = ''--speed'' \<and> rest \<noteq> [] then
        parse_args atof atoi (cfg\<lparr>speed_mul := atof (hd rest)\<rparr>) (tl rest)
      else if a = ''--density'' \<and> rest \<noteq> [] then
        (let d0 = atof (hd rest);
             d1 = (if dlt d0 (Num 0) then Num 0 else d0);
             d2 = (if dlt (Num 1) d1 then Num 1 else d1)
         in parse_args atof atoi (cfg\<lparr>density := d2\<rparr>) (tl rest))
      else if a = ''--bold'' then parse_args atof atoi (cfg\<lparr>bold_head := True\<rparr>) rest
      else if a = ''--no-fade'' then parse_args atof atoi (cfg\<lparr>fade_trail := False\<rparr>) rest
      else if a = ''--fps'' \<and> rest \<noteq> [] then
        (let n0 = atoi (hd rest);
             n1 = (if n0 < 10 then 10 else n0);
             n2 = (if n1 > 240 then 240 else n1)
         in parse_args atof atoi (cfg\<lparr>target_fps := n2\<rparr>) (tl rest))
      else if a = ''--help'' then Inl 0
      else Inl 1)"

datatype effect = Initscr | Endwin | Stderr string

datatype outcome =
    Exit int "effect list"
  | Running state "effect list"
  | Undefined error "effect list"

definition usage :: "string \<Rightarrow> string" where
  "usage prog =
     ''Usage: '' @ prog @ '' [--speed f] [--density 0..1] [--bold] [--no-fade] [--fps N]''
       @ [CHR 0x0A]"

text \<open>What \<open>main\<close> reads at startup: the first size, the first \<open>calloc\<close>, the seed source.\<close>

record startup =
  maxy0 :: int
  maxx0 :: int
  alloc0 :: bool
  seed0 :: u64

definition matrix_main ::
    "(string \<Rightarrow> dbl) \<Rightarrow> (string \<Rightarrow> int) \<Rightarrow> string list \<Rightarrow> startup \<Rightarrow> frame list \<Rightarrow> outcome" where
  "matrix_main atof atoi argv su frames =
     (case parse_args atof atoi default_config (drop 1 argv) of
        Inl code \<Rightarrow> Exit code [Stderr (usage (hd argv))]
      | Inr cfg \<Rightarrow>
          if \<not> alloc0 su then Exit 1 [Initscr, Endwin, Stderr (''OOM'' @ [CHR 0x0A])]
          else
            (case init_columns cfg (maxy0 su) (nat (maxx0 su)) \<lparr>s = 0, seed_src = seed0 su\<rparr> of
               Inl e \<Rightarrow> Undefined e [Initscr]
             | Inr (cs, g) \<Rightarrow>
                 (case main_loop cfg
                         \<lparr>cols = cs, maxx = maxx0 su, maxy = maxy0 su, paused = False, rng = g\<rparr>
                         frames of
                    Inl e \<Rightarrow> Undefined e [Initscr]
                  | Inr (Next st) \<Rightarrow> Running st [Initscr]
                  | Inr (Break st) \<Rightarrow> Exit 0 [Initscr, Endwin])))"

section \<open>Notions used in the statements\<close>

text \<open>The generator after \<open>k\<close> calls of \<open>rnd32\<close>, and the value the next call returns then.\<close>

primrec after :: "nat \<Rightarrow> rng \<Rightarrow> rng" where
  "after 0 g = g"
| "after (Suc k) g = after k (snd (rnd32 g))"

definition draw_at :: "nat \<Rightarrow> rng \<Rightarrow> u32" where
  "draw_at k g = fst (rnd32 (after k g))"

text \<open>The values \<open>drand\<close> and \<open>irand(n)\<close> make of a 32-bit draw.\<close>

definition float_of :: "u32 \<Rightarrow> real" where
  "float_of u = real (unat u) / real (unat UINT32_MAX)"

definition int_of :: "int \<Rightarrow> u32 \<Rightarrow> int" where
  "int_of n u = sint (u mod word_of_int n)"

text \<open>
  The column the specification describes for construction, as a function of the four
  values drawn: \<open>is_active = next_float() < density\<close>, \<open>trail_length = 5 + next_int(20)\<close>,
  \<open>speed = (0.4 + next_float() * 1.2) * speed_multiplier\<close>,
  \<open>head_position = - next_int(height)\<close>.
\<close>

definition fresh_column :: "config \<Rightarrow> real \<Rightarrow> int \<Rightarrow> real \<Rightarrow> int \<Rightarrow> Column" where
  "fresh_column cfg activity trail sp depth =
     \<lparr>head_y = - depth, tail = 5 + trail,
      speed = dmul (Num (0.4 + sp * 1.2)) (speed_mul cfg),
      active = dlt (Num activity) (density cfg)\<rparr>"

text \<open>\<open>a <= b\<close> on doubles.\<close>

fun dle :: "dbl \<Rightarrow> dbl \<Rightarrow> bool" where
  "dle NaN _ = False"
| "dle _ NaN = False"
| "dle (Num a) (Num b) = (a \<le> b)"
| "dle (Num a) PInf = True"
| "dle (Num a) NInf = False"
| "dle PInf PInf = True"
| "dle PInf _ = False"
| "dle NInf _ = True"

text \<open>A value is a C \<open>int\<close>.\<close>

definition is_int :: "int \<Rightarrow> bool" where
  "is_int v \<longleftrightarrow> INT_MIN \<le> v \<and> v \<le> INT_MAX"

text \<open>The range of every tail length the program draws.\<close>

definition tail_ok :: "Column \<Rightarrow> bool" where
  "tail_ok c \<longleftrightarrow> 5 \<le> tail c \<and> tail c \<le> 24"

text \<open>
  A viewport height the program can meet: a non-negative \<open>int\<close>, with enough room below
  \<open>INT_MAX\<close> that \<open>head_y - tail\<close> stays an \<open>int\<close> for a head above the screen.
\<close>

definition rows_ok :: "int \<Rightarrow> bool" where
  "rows_ok h \<longleftrightarrow> 0 \<le> h \<and> h + 24 \<le> INT_MAX"

text \<open>A column that has not entered the screen and whose speed is not positive.\<close>

definition at_rest :: "Column \<Rightarrow> bool" where
  "at_rest c \<longleftrightarrow>
     dle (speed c) (Num 0) \<and> INT_MIN + 24 \<le> head_y c \<and> head_y c \<le> 0 \<and>
     0 \<le> tail c \<and> tail c \<le> 24"

text \<open>
  A fragment of the C library's \<open>atof\<close>, enough for the examples: the string \<open>nan\<close> is
  NaN, \<open>inf\<close> is infinity, a few decimal literals have their value, and text that is
  no number is 0.
\<close>

definition atof_sample :: "string \<Rightarrow> dbl" where
  "atof_sample str =
     (if str = ''nan'' then NaN
      else if str = ''inf'' then PInf
      else if str = ''-inf'' then NInf
      else if str = ''1e10'' then Num 10000000000
      else if str = ''-3'' then Num (- 3)
      else if str = ''7'' then Num 7
      else if str = ''0.5'' then Num 0.5
      else Num 0)"

definition atoi_sample :: "string \<Rightarrow> int" where
  "atoi_sample str = (if str = ''30'' then 30 else 0)"

section \<open>Basic facts\<close>

subsection \<open>Sequencing\<close>

lemma bnd_Inl [simp]: "bnd (Inl e) f = Inl e"
  by (simp add: bnd_def)

lemma bnd_Inr [simp]: "bnd (Inr x) f = f x"
  by (simp add: bnd_def)

lemma bnd_eq_Inr:
  "bnd m f = Inr y \<longleftrightarrow> (\<exists>x. m = Inr x \<and> f x = Inr y)"
  by (cases m) simp_all

lemma int_result_eq [simp]: "is_int v \<Longrightarrow> int_result v = Inr v"
  by (simp add: int_result_def is_int_def)

lemma int_result_Inr: "int_result v = Inr w \<longleftrightarrow> is_int v \<and> w = v"
  by (auto simp: int_result_def is_int_def)

subsection \<open>The generator\<close>

lemma u32_le_max: "unat (v :: u32) \<le> unat UINT32_MAX"
proof -
  have "unat v < 2 ^ 32" using unsigned_less [of v, where 'a = nat] by simp
  then show ?thesis by (simp add: UINT32_MAX_def)
qed

lemma float_of_frac:
  obtains a b :: nat where "float_of u = real a / real b" "a \<le> b" "0 < b"
    "a = unat u" "b = unat UINT32_MAX"
proof
  show "float_of u = real (unat u) / real (unat UINT32_MAX)"
    by (simp add: float_of_def)
  show "unat u \<le> unat UINT32_MAX" by (rule u32_le_max)
  show "0 < unat UINT32_MAX" by (simp add: UINT32_MAX_def)
qed simp_all

lemma float_of_range: "0 \<le> float_of u" "float_of u \<le> 1"
proof -
  obtain a b :: nat where "float_of u = real a / real b" "a \<le> b" "0 < b"
    by (rule float_of_frac)
  then show "0 \<le> float_of u" "float_of u \<le> 1" by simp_all
qed

lemma float_of_lt_1: "float_of u < 1 \<longleftrightarrow> u \<noteq> UINT32_MAX"
proof -
  obtain a b :: nat where ab: "float_of u = real a / real b" "a \<le> b" "0 < b"
    "a = unat u" "b = unat UINT32_MAX"
    by (rule float_of_frac)
  have "float_of u < 1 \<longleftrightarrow> a < b"
    using ab(1,3) by simp
  also have "\<dots> \<longleftrightarrow> a \<noteq> b"
    using ab(2) by linarith
  also have "\<dots> \<longleftrightarrow> u \<noteq> UINT32_MAX"
    unfolding ab(4,5) by (simp add: word_unat_eq_iff)
  finally show ?thesis .
qed

lemma float_of_not_neg: "\<not> float_of u < 0"
  using float_of_range(1) [of u] by simp

lemma word_of_int_nonzero:
  assumes "0 < n" "n \<le> INT_MAX"
  shows "(word_of_int n :: u32) \<noteq> 0"
proof -
  have "uint (word_of_int n :: u32) = n"
    using assms by (simp add: uint_word_of_int take_bit_int_eq_self INT_MAX_def)
  with assms show ?thesis by (metis less_irrefl uint_0_eq)
qed

lemma int_of_range:
  assumes "0 < n" "n \<le> INT_MAX"
  shows "0 \<le> int_of n u" "int_of n u < n"
proof -
  let ?m = "word_of_int n :: u32"
  have um: "uint ?m = n"
    using assms by (simp add: uint_word_of_int take_bit_int_eq_self INT_MAX_def)
  have "uint (u mod ?m) = uint u mod n"
    by (simp add: uint_mod_distrib um)
  then have ub: "0 \<le> uint (u mod ?m) \<and> uint (u mod ?m) < n"
    using assms by simp
  have lo: "- (2 ^ (LENGTH(32) - Suc 0)) \<le> uint (u mod ?m)"
    by (rule order_trans [where y = 0]) simp_all
  have hi: "uint (u mod ?m) < 2 ^ (LENGTH(32) - Suc 0)"
    using ub assms(2) by (simp add: INT_MAX_def)
  have "sint (u mod ?m) = uint (u mod ?m)"
    unfolding sint_uint using lo hi by (rule signed_take_bit_int_eq_self)
  with ub show "0 \<le> int_of n u" "int_of n u < n"
    by (simp_all add: int_of_def)
qed

lemma after_Suc: "after (Suc k) g = snd (rnd32 (after k g))"
  by (induction k arbitrary: g) simp_all

lemma drand_eq: "drand g = (float_of (draw_at 0 g), after 1 g)"
  by (simp add: drand_def float_of_def draw_at_def split_beta)

lemma after_add: "after k (after j g) = after (j + k) g"
  by (induction j arbitrary: g) simp_all

lemma draw_at_after: "draw_at k (after j g) = draw_at (j + k) g"
  by (simp add: draw_at_def after_add)

lemma irand_eq:
  "irand n g =
     (if (word_of_int n :: u32) = 0 then Inl DivByZero
      else Inr (int_of n (draw_at 0 g), after 1 g))"
  by (simp add: irand_def int_of_def draw_at_def split_beta Let_def)

lemma irand_pos:
  "0 < n \<Longrightarrow> n \<le> INT_MAX \<Longrightarrow> irand n g = Inr (int_of n (draw_at 0 g), after 1 g)"
  by (simp add: irand_eq word_of_int_nonzero)

lemma irand_zero: "irand 0 g = Inl DivByZero"
  by (simp add: irand_eq)

lemma is_int_small: "0 \<le> v \<Longrightarrow> v < n \<Longrightarrow> n \<le> INT_MAX \<Longrightarrow> is_int (- v) \<and> is_int v"
  by (simp add: is_int_def INT_MAX_def INT_MIN_def)

lemma INT_MAX_20 [simp]: "20 \<le> INT_MAX" "65 \<le> INT_MAX"
  by (simp_all add: INT_MAX_def)

lemma is_int_tail: "0 \<le> v \<Longrightarrow> v < 20 \<Longrightarrow> is_int (5 + v)"
  by (simp add: is_int_def INT_MAX_def INT_MIN_def)

subsection \<open>Fresh columns\<close>

lemma fresh_column_fields [simp]:
  "head_y (fresh_column cfg a t sp d) = - d"
  "tail (fresh_column cfg a t sp d) = 5 + t"
  "speed (fresh_column cfg a t sp d) = dmul (Num (0.4 + sp * 1.2)) (speed_mul cfg)"
  "active (fresh_column cfg a t sp d) = dlt (Num a) (density cfg)"
  by (simp_all add: fresh_column_def)

lemma init_column_eq:
  assumes "0 < rows" "rows \<le> INT_MAX"
  shows "init_column cfg rows g =
    Inr (fresh_column cfg (float_of (draw_at 0 g)) (int_of 20 (draw_at 1 g))
           (float_of (draw_at 2 g)) (int_of rows (draw_at 3 g)), after 4 g)"
proof -
  have t: "is_int (5 + int_of 20 (draw_at 1 g))"
    by (rule is_int_tail) (simp_all add: int_of_range)
  have h: "is_int (- int_of rows (draw_at 3 g))"
    using is_int_small [OF int_of_range [OF assms] assms(2)] by simp
  show ?thesis
    using assms t h
    by (simp add: init_column_def drand_eq irand_pos draw_at_def eval_nat_numeral fresh_column_def)
qed

lemma reset_column_eq:
  assumes "0 < rows" "rows \<le> INT_MAX"
  shows "reset_column cfg rows c g =
    Inr (fresh_column cfg (float_of (draw_at 0 g)) (int_of 20 (draw_at 2 g))
           (float_of (draw_at 3 g)) (int_of rows (draw_at 1 g)), after 4 g)"
proof -
  have t: "is_int (5 + int_of 20 (draw_at 2 g))"
    by (rule is_int_tail) (simp_all add: int_of_range)
  have h: "is_int (- int_of rows (draw_at 1 g))"
    using is_int_small [OF int_of_range [OF assms] assms(2)] by simp
  show ?thesis
    using assms t h
    by (simp add: reset_column_def drand_eq irand_pos draw_at_def eval_nat_numeral fresh_column_def)
qed

lemma start_column_eq:
  assumes "0 < rows" "rows \<le> INT_MAX"
  shows "start_column cfg rows c g =
    Inr ((fresh_column cfg 0 (int_of 20 (draw_at 1 g))
           (float_of (draw_at 2 g)) (int_of rows (draw_at 0 g)))\<lparr>active := True\<rparr>, after 3 g)"
proof -
  have t: "is_int (5 + int_of 20 (draw_at 1 g))"
    by (rule is_int_tail) (simp_all add: int_of_range)
  have h: "is_int (- int_of rows (draw_at 0 g))"
    using is_int_small [OF int_of_range [OF assms] assms(2)] by simp
  show ?thesis
    using assms t h
    by (simp add: start_column_def drand_eq irand_pos draw_at_def eval_nat_numeral fresh_column_def)
qed

lemma init_column_zero_rows: "init_column cfg 0 g = Inl DivByZero"
proof -
  have "is_int (5 + int_of 20 (draw_at 0 (snd (rnd32 g))))"
    by (rule is_int_tail) (simp_all add: int_of_range)
  then show ?thesis
    by (simp add: init_column_def drand_eq irand_pos irand_zero)
qed

lemma start_column_zero_rows: "start_column cfg 0 c g = Inl DivByZero"
  by (simp add: start_column_def irand_zero)

lemma init_columns_all:
  assumes "0 < rows" "rows \<le> INT_MAX"
    and "\<And>a t sp d. 0 \<le> a \<Longrightarrow> a \<le> 1 \<Longrightarrow> 0 \<le> t \<Longrightarrow> t < 20 \<Longrightarrow> 0 \<le> sp \<Longrightarrow> sp \<le> 1 \<Longrightarrow>
           0 \<le> d \<Longrightarrow> d < rows \<Longrightarrow> P (fresh_column cfg a t sp d)"
  shows "\<exists>cs g'. init_columns cfg rows n g = Inr (cs, g') \<and> length cs = n \<and> (\<forall>c\<in>set cs. P c)"
proof (induction n arbitrary: g)
  case 0
  show ?case by simp
next
  case (Suc n)
  let ?c = "fresh_column cfg (float_of (draw_at 0 g)) (int_of 20 (draw_at 1 g))
              (float_of (draw_at 2 g)) (int_of rows (draw_at 3 g))"
  have c: "P ?c"
    by (rule assms(3)) (simp_all add: float_of_range int_of_range assms)
  obtain cs g' where "init_columns cfg rows n (after 4 g) = Inr (cs, g')" "length cs = n"
    "\<forall>c\<in>set cs. P c"
    using Suc.IH by blast
  with c show ?case
    by (simp add: init_column_eq [OF assms(1,2)])
qed

lemma init_columns_length:
  "init_columns cfg rows n g = Inr (cs, g') \<Longrightarrow> length cs = n"
  by (induction n arbitrary: g cs) (auto simp: bnd_eq_Inr)

lemma init_columns_result:
  assumes "\<And>g c g'. init_column cfg rows g = Inr (c, g') \<Longrightarrow> P c"
    and "init_columns cfg rows n g = Inr (cs, g')"
  shows "\<forall>c\<in>set cs. P c"
  using assms(2)
proof (induction n arbitrary: g cs)
  case 0
  then show ?case by simp
next
  case (Suc n)
  then show ?case
    using assms(1) by (auto simp: bnd_eq_Inr)
qed

lemma init_columns_nth:
  assumes "0 < rows" "rows \<le> INT_MAX"
  shows "\<exists>cs. init_columns cfg rows n g = Inr (cs, after (4 * n) g) \<and> length cs = n \<and>
     (\<forall>i<n. cs ! i =
        fresh_column cfg (float_of (draw_at (4 * i) g)) (int_of 20 (draw_at (4 * i + 1) g))
          (float_of (draw_at (4 * i + 2) g)) (int_of rows (draw_at (4 * i + 3) g)))"
proof (induction n arbitrary: g)
  case 0
  show ?case by simp
next
  case (Suc n)
  let ?c = "fresh_column cfg (float_of (draw_at 0 g)) (int_of 20 (draw_at 1 g))
              (float_of (draw_at 2 g)) (int_of rows (draw_at 3 g))"
  obtain cs where cs: "init_columns cfg rows n (after 4 g) = Inr (cs, after (4 * n) (after 4 g))"
    and len: "length cs = n"
    and nth: "\<forall>i<n. cs ! i =
        fresh_column cfg (float_of (draw_at (4 * i) (after 4 g)))
          (int_of 20 (draw_at (4 * i + 1) (after 4 g)))
          (float_of (draw_at (4 * i + 2) (after 4 g)))
          (int_of rows (draw_at (4 * i + 3) (after 4 g)))"
    using Suc.IH [of "after 4 g"] by blast
  have run: "init_columns cfg rows (Suc n) g = Inr (?c # cs, after (4 * Suc n) g)"
    using cs by (simp add: init_column_eq [OF assms] after_add)
  have "(?c # cs) ! i =
        fresh_column cfg (float_of (draw_at (4 * i) g)) (int_of 20 (draw_at (4 * i + 1) g))
          (float_of (draw_at (4 * i + 2) g)) (int_of rows (draw_at (4 * i + 3) g))"
    if "i < Suc n" for i
  proof (cases i)
    case 0
    then show ?thesis by (simp add: eval_nat_numeral)
  next
    case (Suc j)
    with that have "j < n" by simp
    with nth Suc show ?thesis
      by (simp add: draw_at_after add.assoc)
  qed
  with run len show ?case by simp
qed


subsection \<open>The update of one column\<close>

lemma advance_head_slow:
  assumes "dlt (speed c) (Num 1)"
  shows "advance_head c g =
     bnd (int_result (head_y c + (if dlt (Num (float_of (draw_at 0 g))) (speed c) then 1 else 0)))
       (\<lambda>h. Inr (c\<lparr>head_y := h\<rparr>, after 1 g))"
  using assms by (simp add: advance_head_def drand_eq)

lemma advance_head_fast:
  assumes "\<not> dlt (speed c) (Num 1)"
  shows "advance_head c g =
     bnd (dbl_to_int (speed c)) (\<lambda>i. bnd (int_result (head_y c + i))
       (\<lambda>h. Inr (c\<lparr>head_y := h\<rparr>, g)))"
  using assms by (cases "dbl_to_int (speed c)") (simp_all add: advance_head_def)

lemma dbl_to_int_Inr:
  "dbl_to_int d = Inr i \<Longrightarrow> \<not> dlt d (Num 1) \<Longrightarrow> \<exists>r. d = Num r \<and> 1 \<le> r \<and> i = \<lfloor>r\<rfloor> \<and> 1 \<le> i"
  by (cases d) (auto simp: Let_def split: if_splits)

lemma advance_head_monotone:
  assumes "dlt (Num 0) (speed c)" "advance_head c g = Inr (c1, g1)"
  shows "\<exists>step. c1 = c\<lparr>head_y := head_y c + step\<rparr> \<and> 0 \<le> step \<and>
           (dlt (speed c) (Num 1) \<longrightarrow> step = 0 \<or> step = 1) \<and>
           (\<not> dlt (speed c) (Num 1) \<longrightarrow> (\<exists>r. speed c = Num r \<and> step = \<lfloor>r\<rfloor> \<and> 1 \<le> step))"
proof (cases "dlt (speed c) (Num 1)")
  case True
  let ?step = "if dlt (Num (float_of (draw_at 0 g))) (speed c) then 1 else 0 :: int"
  from assms(2) have "c1 = c\<lparr>head_y := head_y c + ?step\<rparr>"
    by (auto simp: advance_head_slow [OF True] bnd_eq_Inr int_result_Inr)
  with True show ?thesis
    by (intro exI [of _ ?step]) simp
next
  case False
  from assms(2) obtain i where i: "dbl_to_int (speed c) = Inr i"
    and c1: "c1 = c\<lparr>head_y := head_y c + i\<rparr>"
    by (auto simp: advance_head_fast [OF False] bnd_eq_Inr int_result_Inr)
  from dbl_to_int_Inr [OF i False] c1 False show ?thesis
    by auto
qed

lemma advance_head_defined:
  assumes "speed c = Num r" "0 < r" "r < 2147483648" "is_int (head_y c)"
    "head_y c + max 1 \<lfloor>r\<rfloor> \<le> INT_MAX"
  shows "\<exists>c1 g1. advance_head c g = Inr (c1, g1)"
proof (cases "r < 1")
  case True
  have "\<lfloor>r\<rfloor> < 1" using True by (simp add: floor_less_iff)
  then have "is_int (head_y c + 1)" "is_int (head_y c)"
    using assms(4,5) by (auto simp: is_int_def max_def split: if_splits)
  then show ?thesis
    using True assms(1) by (simp add: advance_head_slow)
next
  case False
  then have r1: "1 \<le> r" by simp
  have f1: "1 \<le> \<lfloor>r\<rfloor>" using r1 by linarith
  have "\<lfloor>r\<rfloor> < 2147483648" using assms(3) by (simp add: floor_less_iff)
  then have conv: "dbl_to_int (Num r) = Inr \<lfloor>r\<rfloor>"
    using r1 f1 by (simp add: INT_MAX_def INT_MIN_def)
  have "is_int (head_y c + \<lfloor>r\<rfloor>)"
    using assms(4,5) f1 unfolding is_int_def by linarith
  then show ?thesis
    using False assms(1) conv by (simp add: advance_head_fast)
qed

lemma advance_head_result:
  assumes "advance_head c g = Inr (c1, g1)"
  shows "is_int (head_y c1)" "tail c1 = tail c" "speed c1 = speed c" "active c1 = active c"
proof -
  have "is_int (head_y c1) \<and> tail c1 = tail c \<and> speed c1 = speed c \<and> active c1 = active c"
  proof (cases "dlt (speed c) (Num 1)")
    case True
    with assms show ?thesis
      by (auto simp: advance_head_slow bnd_eq_Inr int_result_Inr)
  next
    case False
    with assms show ?thesis
      by (auto simp: advance_head_fast bnd_eq_Inr int_result_Inr)
  qed
  then show "is_int (head_y c1)" "tail c1 = tail c" "speed c1 = speed c" "active c1 = active c"
    by simp_all
qed

lemma tick_column_active:
  "active c \<Longrightarrow> tick_column cfg rows c g =
     bnd (advance_head c g) (\<lambda>(c1, g1).
     bnd (int_result (head_y c1 - tail c1)) (\<lambda>t.
     if t > rows then reset_column cfg rows c1 g1 else Inr (c1, g1)))"
  by (simp add: tick_column_def)

lemma tick_column_no_reset:
  assumes "active c" "advance_head c g = Inr (c1, g1)" "is_int (head_y c1 - tail c1)"
    "\<not> rows < head_y c1 - tail c1"
  shows "tick_column cfg rows c g = Inr (c1, g1)"
  using assms by (simp add: tick_column_active)

lemma tick_column_reset:
  assumes "active c" "advance_head c g = Inr (c1, g1)" "is_int (head_y c1 - tail c1)"
    "rows < head_y c1 - tail c1"
  shows "tick_column cfg rows c g = reset_column cfg rows c1 g1"
  using assms by (simp add: tick_column_active)

lemma simulate_result:
  assumes "\<And>c g c' g'. P c \<Longrightarrow> tick_column cfg rows c g = Inr (c', g') \<Longrightarrow> P c'"
    and "\<forall>c\<in>set cs. P c" and "simulate cfg rows cs g = Inr (cs', g')"
  shows "(\<forall>c\<in>set cs'. P c) \<and> length cs' = length cs"
  using assms(2,3)
proof (induction cs arbitrary: g cs')
  case Nil
  then show ?case by simp
next
  case (Cons c cs)
  from Cons.prems(2) obtain c1 g1 cs1 where t: "tick_column cfg rows c g = Inr (c1, g1)"
    and s: "simulate cfg rows cs g1 = Inr (cs1, g')" and cs': "cs' = c1 # cs1"
    by (auto simp: bnd_eq_Inr)
  have "P c1" using assms(1) [OF _ t] Cons.prems(1) by simp
  moreover have "(\<forall>c\<in>set cs1. P c) \<and> length cs1 = length cs"
    using Cons.IH [OF _ s] Cons.prems(1) by simp
  ultimately show ?case by (simp add: cs')
qed

subsection \<open>Resize\<close>

lemma handle_resize_grow:
  assumes "maxx st < nx f" "0 \<le> maxx st" "length (cols st) = nat (maxx st)" "alloc_ok f"
  shows "handle_resize cfg st f =
     bnd (init_columns cfg (ny f) (nat (nx f - maxx st)) (rng st)) (\<lambda>(new, g).
       Inr (Some (st\<lparr>cols := cols st @ new, maxx := nx f, maxy := ny f, rng := g\<rparr>)))"
proof -
  have "nat (min (nx f) (maxx st)) = nat (maxx st)"
    using assms(1) by simp
  with assms show ?thesis
    by (simp add: handle_resize_def Let_def)
qed

lemma handle_resize_no_alloc:
  "nx f \<noteq> maxx st \<or> ny f \<noteq> maxy st \<Longrightarrow> \<not> alloc_ok f \<Longrightarrow> handle_resize cfg st f = Inr None"
  by (simp add: handle_resize_def)

lemma handle_resize_Some_alloc:
  "handle_resize cfg st f = Inr (Some st') \<Longrightarrow> maxx st < nx f \<Longrightarrow> alloc_ok f"
  by (auto simp: handle_resize_def split: if_splits)

lemma resize_copy:
  assumes "nat mx \<le> length cs"
  shows "(if mx < n
          then take (nat mx) (take (nat (min n mx)) cs @
                 drop (nat (min n mx)) (replicate (nat n) z)) @ new
          else take (nat (min n mx)) cs @ drop (nat (min n mx)) (replicate (nat n) z))
       = (if mx < n then take (nat mx) cs @ new else take (nat n) cs)"
proof (cases "mx < n")
  case True
  then have "min n mx = mx" by simp
  with True assms show ?thesis by simp
next
  case False
  then have "min n mx = n" by simp
  with False show ?thesis by simp
qed

lemma handle_resize_eq:
  assumes "nat (maxx st) \<le> length (cols st)"
  shows "handle_resize cfg st f =
     (if nx f \<noteq> maxx st \<or> ny f \<noteq> maxy st then
        (if \<not> alloc_ok f then Inr None
         else bnd (init_columns cfg (ny f) (nat (nx f - maxx st)) (rng st)) (\<lambda>(new, g).
                Inr (Some (st\<lparr>cols := (if maxx st < nx f then take (nat (maxx st)) (cols st) @ new
                                         else take (nat (nx f)) (cols st)),
                               maxx := nx f, maxy := ny f, rng := g\<rparr>))))
      else Inr (Some st))"
  unfolding handle_resize_def Let_def resize_copy [OF assms] ..

lemma handle_resize_cols:
  assumes "handle_resize cfg st f = Inr (Some st')" "nat (maxx st) \<le> length (cols st)"
  shows "nat (maxx st') \<le> length (cols st') \<and> paused st' = paused st \<and>
     (maxy st' = maxy st \<or> maxy st' = ny f) \<and>
     (\<exists>new g. init_columns cfg (ny f) (nat (nx f - maxx st)) (rng st) = Inr (new, g) \<and>
        set (cols st') \<subseteq> set (cols st) \<union> set new) \<or> st' = st"
proof (cases "nx f \<noteq> maxx st \<or> ny f \<noteq> maxy st")
  case False
  with assms show ?thesis by (simp add: handle_resize_eq)
next
  case True
  have eq: "handle_resize cfg st f =
     (if \<not> alloc_ok f then Inr None
      else bnd (init_columns cfg (ny f) (nat (nx f - maxx st)) (rng st)) (\<lambda>(new, g).
             Inr (Some (st\<lparr>cols := (if maxx st < nx f then take (nat (maxx st)) (cols st) @ new
                                      else take (nat (nx f)) (cols st)),
                            maxx := nx f, maxy := ny f, rng := g\<rparr>))))"
    unfolding handle_resize_eq [OF assms(2)] using True by (simp only: if_True)
  have ok: "alloc_ok f"
    using assms(1) unfolding eq by (cases "alloc_ok f") simp_all
  from assms(1) have "\<exists>new g.
      init_columns cfg (ny f) (nat (nx f - maxx st)) (rng st) = Inr (new, g) \<and>
      st\<lparr>cols := (if maxx st < nx f then take (nat (maxx st)) (cols st) @ new
                   else take (nat (nx f)) (cols st)),
         maxx := nx f, maxy := ny f, rng := g\<rparr> = st'"
    unfolding eq using ok by (simp add: bnd_eq_Inr)
  then obtain new g
    where new: "init_columns cfg (ny f) (nat (nx f - maxx st)) (rng st) = Inr (new, g)"
      and st': "st' = st\<lparr>cols := (if maxx st < nx f then take (nat (maxx st)) (cols st) @ new
                                   else take (nat (nx f)) (cols st)),
                         maxx := nx f, maxy := ny f, rng := g\<rparr>"
    by blast
  have len: "length new = nat (nx f - maxx st)"
    using new by (rule init_columns_length)
  have "nat (maxx st') \<le> length (cols st')"
    using assms(2) len by (auto simp: st')
  moreover have "set (cols st') \<subseteq> set (cols st) \<union> set new"
    by (auto simp: st' dest: in_set_takeD)
  ultimately show ?thesis
    using new by (auto simp: st')
qed


lemma zero_height_resize:
  assumes "maxx st < nx f" "ny f = 0" "alloc_ok f"
  shows "handle_resize cfg st f = Inl DivByZero"
proof -
  obtain k where "nat (nx f - maxx st) = Suc k"
    using assms(1) by (cases "nat (nx f - maxx st)") auto
  then show ?thesis
    using assms by (simp add: handle_resize_def Let_def init_column_zero_rows)
qed

subsection \<open>Runs\<close>

lemma matrix_main_Running:
  assumes "matrix_main atof atoi argv su fs = Running st effs"
  shows "\<exists>cfg cs g. parse_args atof atoi default_config (drop 1 argv) = Inr cfg \<and>
     init_columns cfg (maxy0 su) (nat (maxx0 su)) \<lparr>s = 0, seed_src = seed0 su\<rparr> = Inr (cs, g) \<and>
     main_loop cfg \<lparr>cols = cs, maxx = maxx0 su, maxy = maxy0 su, paused = False, rng = g\<rparr> fs
       = Inr (Next st)"
proof (cases "parse_args atof atoi default_config (drop 1 argv)")
  case (Inl code)
  with assms show ?thesis by (simp add: matrix_main_def)
next
  case (Inr cfg)
  note cfg = this
  show ?thesis
  proof (cases "init_columns cfg (maxy0 su) (nat (maxx0 su)) \<lparr>s = 0, seed_src = seed0 su\<rparr>")
    case (Inl e)
    with assms cfg show ?thesis by (simp add: matrix_main_def split: if_splits)
  next
    case (Inr r)
    obtain cs g where r: "r = (cs, g)" by (cases r)
    show ?thesis
    proof (cases "main_loop cfg
        \<lparr>cols = cs, maxx = maxx0 su, maxy = maxy0 su, paused = False, rng = g\<rparr> fs")
      case (Inl e)
      with assms cfg Inr r show ?thesis by (simp add: matrix_main_def split: if_splits)
    next
      case (Inr k)
      with assms cfg \<open>init_columns cfg (maxy0 su) (nat (maxx0 su)) \<lparr>s = 0, seed_src = seed0 su\<rparr> = Inr r\<close> r
      show ?thesis by (cases k) (simp_all add: matrix_main_def split: if_splits)
    qed
  qed
qed

lemma iteration_Next:
  assumes "iteration cfg st f = Inr (Next st')"
  shows "\<exists>st1 st2. (st1 = st \<or> st1 = st\<lparr>paused := \<not> paused st\<rparr>) \<and>
     handle_resize cfg st1 f = Inr (Some st2) \<and>
     (st' = st2 \<or>
      (\<exists>cs g1 g2. simulate cfg (maxy st2) (cols st2) (rng st2) = Inr (cs, g1) \<and>
         st' = st2\<lparr>cols := cs, rng := g2\<rparr>))"
proof -
  define st1 where "st1 = (if key f = 112 \<or> key f = 80 then st\<lparr>paused := \<not> paused st\<rparr> else st)"
  have q: "\<not> (key f = 113 \<or> key f = 27)"
    using assms by (auto simp: iteration_def)
  with assms have "\<exists>r. handle_resize cfg st1 f = Inr r \<and>
      (case r of None \<Rightarrow> Inr (Break st1)
            | Some st2 \<Rightarrow>
                if paused st2 then Inr (Next st2)
                else bnd (simulate cfg (maxy st2) (cols st2) (rng st2)) (\<lambda>(cs, g1).
                     bnd (draw (maxy st2) cs g1) (\<lambda>g2.
                     Inr (Next (st2\<lparr>cols := cs, rng := g2\<rparr>))))) = Inr (Next st')"
    unfolding st1_def by (simp add: iteration_def Let_def bnd_eq_Inr)
  then obtain r where r: "handle_resize cfg st1 f = Inr r"
    and k: "(case r of None \<Rightarrow> Inr (Break st1)
            | Some st2 \<Rightarrow>
                if paused st2 then Inr (Next st2)
                else bnd (simulate cfg (maxy st2) (cols st2) (rng st2)) (\<lambda>(cs, g1).
                     bnd (draw (maxy st2) cs g1) (\<lambda>g2.
                     Inr (Next (st2\<lparr>cols := cs, rng := g2\<rparr>))))) = Inr (Next st')"
    by blast
  from k obtain st2 where st2: "r = Some st2" by (cases r) simp_all
  have "st' = st2 \<or>
      (\<exists>cs g1 g2. simulate cfg (maxy st2) (cols st2) (rng st2) = Inr (cs, g1) \<and>
         st' = st2\<lparr>cols := cs, rng := g2\<rparr>)"
  proof (cases "paused st2")
    case True
    with k st2 show ?thesis by simp
  next
    case False
    with k st2 show ?thesis by (auto simp: bnd_eq_Inr)
  qed
  moreover have "st1 = st \<or> st1 = st\<lparr>paused := \<not> paused st\<rparr>"
    by (simp add: st1_def)
  ultimately show ?thesis
    using r st2 by blast
qed

lemma main_loop_invariant:
  assumes step: "\<And>st f st'. I st \<Longrightarrow> f \<in> set fs \<Longrightarrow> iteration cfg st f = Inr (Next st') \<Longrightarrow> I st'"
  shows "I st \<Longrightarrow> main_loop cfg st fs = Inr (Next st') \<Longrightarrow> I st'"
  using step
proof (induction fs arbitrary: st)
  case Nil
  then show ?case by simp
next
  case (Cons f fs)
  from Cons.prems(2) obtain r where r: "iteration cfg st f = Inr r"
    and k: "(case r of Break st2 \<Rightarrow> Inr (Break st2) | Next st2 \<Rightarrow> main_loop cfg st2 fs)
              = Inr (Next st')"
    by (auto simp: bnd_eq_Inr)
  from k obtain st1 where "r = Next st1" and rest: "main_loop cfg st1 fs = Inr (Next st')"
    by (cases r) simp_all
  with r have it: "iteration cfg st f = Inr (Next st1)" by simp
  have "f \<in> set (f # fs)" by simp
  with Cons.prems(1) have "I st1"
    using it by (rule Cons.prems(3))
  then show ?case
    using rest
  proof (rule Cons.IH)
    fix st f' st'
    assume "I st" "f' \<in> set fs" "iteration cfg st f' = Inr (Next st')"
    moreover from \<open>f' \<in> set fs\<close> have "f' \<in> set (f # fs)" by simp
    ultimately show "I st'" using Cons.prems(3) by blast
  qed
qed

lemma startup_oom:
  assumes "parse_args atof atoi default_config (drop 1 argv) = Inr cfg" "\<not> alloc0 su"
  shows "matrix_main atof atoi argv su frames =
     Exit 1 [Initscr, Endwin, Stderr (''OOM'' @ [CHR 0x0A])]"
  using assms by (simp add: matrix_main_def)

lemma zero_width_startup:
  "matrix_main atof atoi [prog] \<lparr>maxy0 = h, maxx0 = 0, alloc0 = True, seed0 = sd\<rparr> []
     = Running \<lparr>cols = [], maxx = 0, maxy = h, paused = False, rng = \<lparr>s = 0, seed_src = sd\<rparr>\<rparr> [Initscr]"
  by (simp add: matrix_main_def)

lemma zero_height_startup:
  "matrix_main atof atoi [prog] \<lparr>maxy0 = 0, maxx0 = 1, alloc0 = True, seed0 = sd\<rparr> frames
     = Undefined DivByZero [Initscr]"
  by (simp add: matrix_main_def init_column_zero_rows)

subsection \<open>Concrete draws\<close>

text \<open>
  Generator states evaluated step by step. From the first one the next call of
  \<open>rnd32\<close> returns \<open>UINT32_MAX\<close>; the state is odd, so it is also a possible seed. The
  second chain starts from state 1, which is also where a run with seed source 0 starts.
\<close>

lemma stepA1:
  "rnd32 \<lparr>s = 2024368274305121281, seed_src = 0\<rparr> = (4294967295, \<lparr>s = 73014444031, seed_src = 0\<rparr>)"
  by (simp add: rnd32_def Let_def)

lemma stepA2:
  "rnd32 \<lparr>s = 73014444031, seed_src = 0\<rparr> = (3078651775, \<lparr>s = 2361049680478079, seed_src = 0\<rparr>)"
  by (simp add: rnd32_def Let_def)

lemma stepA3:
  "rnd32 \<lparr>s = 2361049680478079, seed_src = 0\<rparr> = (4028301343, \<lparr>s = 4605546439720501279, seed_src = 0\<rparr>)"
  by (simp add: rnd32_def Let_def)

lemma stepA4:
  "rnd32 \<lparr>s = 4605546439720501279, seed_src = 0\<rparr> = (4003977752, \<lparr>s = 6761226285456284184, seed_src = 0\<rparr>)"
  by (simp add: rnd32_def Let_def)

lemma drawsA:
  "draw_at 0 \<lparr>s = 2024368274305121281, seed_src = 0\<rparr> = 4294967295"
  "draw_at (Suc 0) \<lparr>s = 2024368274305121281, seed_src = 0\<rparr> = 3078651775"
  "draw_at 2 \<lparr>s = 2024368274305121281, seed_src = 0\<rparr> = 4028301343"
  "draw_at 3 \<lparr>s = 2024368274305121281, seed_src = 0\<rparr> = 4003977752"
  "after 4 \<lparr>s = 2024368274305121281, seed_src = 0\<rparr> = \<lparr>s = 6761226285456284184, seed_src = 0\<rparr>"
  by (simp_all add: draw_at_def eval_nat_numeral stepA1 stepA2 stepA3 stepA4)

lemma stepA5:
  "rnd32 \<lparr>s = 6761226285456284184, seed_src = 0\<rparr> =
     (4016504947, \<lparr>s = 6998246310556401779, seed_src = 0\<rparr>)"
  by (simp add: rnd32_def Let_def)

lemma drawA4: "draw_at 4 \<lparr>s = 2024368274305121281, seed_src = 0\<rparr> = 4016504947"
  by (simp add: draw_at_def drawsA stepA5)

lemma stepB1:
  "rnd32 \<lparr>s = 1, seed_src = 0\<rparr> = (33153, \<lparr>s = 33153, seed_src = 0\<rparr>)"
  by (simp add: rnd32_def Let_def)

lemma stepB2:
  "rnd32 \<lparr>s = 33153, seed_src = 0\<rparr> = (1075920929, \<lparr>s = 1075920929, seed_src = 0\<rparr>)"
  by (simp add: rnd32_def Let_def)

lemma stepB3:
  "rnd32 \<lparr>s = 1075920929, seed_src = 0\<rparr> = (3921221897, \<lparr>s = 35600610171145, seed_src = 0\<rparr>)"
  by (simp add: rnd32_def Let_def)

lemma stepB4:
  "rnd32 \<lparr>s = 35600610171145, seed_src = 0\<rparr> = (271073351, \<lparr>s = 1155177853061972039, seed_src = 0\<rparr>)"
  by (simp add: rnd32_def Let_def)

lemma stepB5:
  "rnd32 \<lparr>s = 1155177853061972039, seed_src = 0\<rparr> =
     (1542296054, \<lparr>s = 1445850576522678774, seed_src = 0\<rparr>)"
  by (simp add: rnd32_def Let_def)

lemma drawsB:
  "draw_at 0 \<lparr>s = 1, seed_src = 0\<rparr> = 33153"
  "draw_at (Suc 0) \<lparr>s = 1, seed_src = 0\<rparr> = 1075920929"
  "draw_at 2 \<lparr>s = 1, seed_src = 0\<rparr> = 3921221897"
  "draw_at 3 \<lparr>s = 1, seed_src = 0\<rparr> = 271073351"
  "after 4 \<lparr>s = 1, seed_src = 0\<rparr> = \<lparr>s = 1155177853061972039, seed_src = 0\<rparr>"
  by (simp_all add: draw_at_def eval_nat_numeral stepB1 stepB2 stepB3 stepB4)

lemma stepZ1:
  "rnd32 \<lparr>s = 0, seed_src = 0\<rparr> = (33153, \<lparr>s = 33153, seed_src = 0\<rparr>)"
  by (simp add: rnd32_def Let_def)

lemma drawsZ:
  "draw_at 0 \<lparr>s = 0, seed_src = 0\<rparr> = 33153"
  "draw_at (Suc 0) \<lparr>s = 0, seed_src = 0\<rparr> = 1075920929"
  "draw_at 2 \<lparr>s = 0, seed_src = 0\<rparr> = 3921221897"
  "draw_at 3 \<lparr>s = 0, seed_src = 0\<rparr> = 271073351"
  "after 4 \<lparr>s = 0, seed_src = 0\<rparr> = \<lparr>s = 1155177853061972039, seed_src = 0\<rparr>"
  by (simp_all add: draw_at_def eval_nat_numeral stepZ1 stepB2 stepB3 stepB4)

section \<open>The claims\<close>

subsection \<open>C1: zero-sized viewports\<close>




subsection \<open>C2: allocation failure\<close>

text \<open>
  C2 says that every allocation failure of the column array, at startup or during a
  resize, tears the terminal mode down, reports the failure and exits non-zero. The
  startup path does (\<open>startup_oom\<close>). The resize path does not: started with no
  arguments in an 80 by 24 terminal, with the terminal 81 columns wide in the first
  frame and \<open>calloc\<close> failing there, the loop is left by \<open>break\<close>, \<open>endwin\<close> is called,
  nothing is written to the error stream and \<open>main\<close> returns 0 (for every seed and
  whatever frames would follow).
\<close>

theorem resize_oom_exit:
  "matrix_main atof atoi [prog] \<lparr>maxy0 = 24, maxx0 = 80, alloc0 = True, seed0 = sd\<rparr>
     (\<lparr>key = - 1, ny = 24, nx = 81, alloc_ok = False\<rparr> # frames) = Exit 0 [Initscr, Endwin]"
proof -
  have "\<exists>cs g'. init_columns default_config 24 (nat 80) \<lparr>s = 0, seed_src = sd\<rparr> = Inr (cs, g') \<and>
      length cs = nat 80 \<and> (\<forall>c\<in>set cs. True)"
    by (intro init_columns_all) (simp_all add: INT_MAX_def)
  then obtain cs g' where
    "init_columns default_config 24 (nat 80) \<lparr>s = 0, seed_src = sd\<rparr> = Inr (cs, g')"
    by blast
  then show ?thesis
    by (simp add: matrix_main_def iteration_def handle_resize_no_alloc)
qed

subsection \<open>C3: range of the generator\<close>

text \<open>
  C3 as stated says that \<open>next_float()\<close> is always strictly below 1. It is not: from
  this state \<open>rnd32\<close> returns \<open>UINT32_MAX\<close> and \<open>drand\<close> divides it by \<open>UINT32_MAX\<close>.
\<close>

theorem drand_reaches_one:
  "\<not> fst (drand \<lparr>s = 2024368274305121281, seed_src = 0\<rparr>) < 1"
  by (simp add: drand_def stepA1 UINT32_MAX_def)

text \<open>
  C3 amended: for every \<open>n\<close> with \<open>0 < n\<close> (an \<open>int\<close>) and every generator state,
  \<open>irand(n)\<close> returns an integer in \<open>[0, n)\<close>, and \<open>drand()\<close> returns a real in the closed
  interval \<open>[0, 1]\<close>; it is below 1 exactly when the 32-bit draw is not \<open>UINT32_MAX\<close>.
\<close>

theorem rng_range_amended:
  "0 < n \<Longrightarrow> n \<le> INT_MAX \<Longrightarrow>
     (\<exists>v g'. irand n g = Inr (v, g') \<and> 0 \<le> v \<and> v < n) \<and>
     0 \<le> fst (drand g) \<and> fst (drand g) \<le> 1 \<and>
     (fst (drand g) < 1 \<longleftrightarrow> fst (rnd32 g) \<noteq> UINT32_MAX)"
  by (simp add: irand_pos int_of_range drand_eq float_of_range float_of_lt_1 draw_at_def)

theorem rng_range_amended_witness:
  "(0::int) < 20 \<and> 20 \<le> INT_MAX \<and>
   (\<exists>v g'. irand 20 \<lparr>s = 1, seed_src = 0\<rparr> = Inr (v, g') \<and> 0 \<le> v \<and> v < 20) \<and>
   0 \<le> fst (drand \<lparr>s = 1, seed_src = 0\<rparr>) \<and> fst (drand \<lparr>s = 1, seed_src = 0\<rparr>) \<le> 1 \<and>
   fst (drand \<lparr>s = 1, seed_src = 0\<rparr>) < 1"
  using rng_range_amended [of 20 "\<lparr>s = 1, seed_src = 0\<rparr>"]
  by (simp add: stepB1 UINT32_MAX_def)

subsection \<open>C4: activity at construction for density 0 and 1\<close>

text \<open>
  C4 as stated says that with density 1 every column is initialised active, for every
  generator state. From the state below the activity draw is \<open>UINT32_MAX\<close>, \<open>drand()\<close>
  is 1, and \<open>1 < 1\<close> is false: the column is initialised inactive.
\<close>

theorem density_one_inactive_column:
  "init_column
      \<lparr>speed_mul = Num 1, density = Num 1, bold_head = False, fade_trail = True,
       target_fps = 60\<rparr>
      24 \<lparr>s = 2024368274305121281, seed_src = 0\<rparr> =
   Inr (\<lparr>head_y = - 8, tail = 20, speed = Num (10919914216 / 7158278825), active = False\<rparr>,
        \<lparr>s = 6761226285456284184, seed_src = 0\<rparr>)"
  by (simp add: init_column_eq drawsA fresh_column_def float_of_def int_of_def
      UINT32_MAX_def INT_MAX_def)

text \<open>
  C4 amended: at construction in a viewport of positive height, for every generator
  state, the \<open>i\<close>-th column of the field is built from the draws \<open>4i\<close> to \<open>4i + 3\<close>
  (activity, tail, speed, head), and so: with density 0 every column is initialised
  inactive; with density 1 the \<open>i\<close>-th column is initialised active unless its activity
  draw, the draw \<open>4i\<close>, is \<open>UINT32_MAX\<close> (then \<open>drand()\<close> is 1 and the column is
  inactive). The first part states the same for the initialisation of one column.
\<close>

theorem construct_activity_amended:
  assumes "0 < rows" "rows \<le> INT_MAX"
  shows "(\<exists>c g'. init_column cfg rows g = Inr (c, g') \<and>
            (density cfg = Num 0 \<longrightarrow> \<not> active c) \<and>
            (density cfg = Num 1 \<longrightarrow> (active c \<longleftrightarrow> fst (rnd32 g) \<noteq> UINT32_MAX))) \<and>
         (\<exists>cs g'. init_columns cfg rows n g = Inr (cs, g') \<and> length cs = n \<and>
            (\<forall>i<n. cs ! i =
               fresh_column cfg (float_of (draw_at (4 * i) g))
                 (int_of 20 (draw_at (4 * i + 1) g)) (float_of (draw_at (4 * i + 2) g))
                 (int_of rows (draw_at (4 * i + 3) g))) \<and>
            (density cfg = Num 0 \<longrightarrow> (\<forall>i<n. \<not> active (cs ! i))) \<and>
            (density cfg = Num 1 \<longrightarrow>
               (\<forall>i<n. active (cs ! i) \<longleftrightarrow> draw_at (4 * i) g \<noteq> UINT32_MAX)))"
proof
  have "\<not> float_of u < 0" for u
    using float_of_range(1) [of u] by simp
  then show "\<exists>c g'. init_column cfg rows g = Inr (c, g') \<and>
            (density cfg = Num 0 \<longrightarrow> \<not> active c) \<and>
            (density cfg = Num 1 \<longrightarrow> (active c \<longleftrightarrow> fst (rnd32 g) \<noteq> UINT32_MAX))"
    by (simp add: init_column_eq [OF assms] float_of_lt_1 draw_at_def)
next
  obtain cs where run: "init_columns cfg rows n g = Inr (cs, after (4 * n) g)"
    and len: "length cs = n"
    and nth: "\<forall>i<n. cs ! i =
        fresh_column cfg (float_of (draw_at (4 * i) g)) (int_of 20 (draw_at (4 * i + 1) g))
          (float_of (draw_at (4 * i + 2) g)) (int_of rows (draw_at (4 * i + 3) g))"
    using init_columns_nth [OF assms, of cfg n g] by blast
  have neg: "\<not> float_of u < 0" for u
    using float_of_range(1) [of u] by simp
  have zero: "density cfg = Num 0 \<longrightarrow> (\<forall>i<n. \<not> active (cs ! i))"
    using nth neg by simp
  have one: "density cfg = Num 1 \<longrightarrow>
      (\<forall>i<n. active (cs ! i) \<longleftrightarrow> draw_at (4 * i) g \<noteq> UINT32_MAX)"
    using nth by (simp add: float_of_lt_1)
  from run len nth zero one
  show "\<exists>cs g'. init_columns cfg rows n g = Inr (cs, g') \<and> length cs = n \<and>
            (\<forall>i<n. cs ! i =
               fresh_column cfg (float_of (draw_at (4 * i) g))
                 (int_of 20 (draw_at (4 * i + 1) g)) (float_of (draw_at (4 * i + 2) g))
                 (int_of rows (draw_at (4 * i + 3) g))) \<and>
            (density cfg = Num 0 \<longrightarrow> (\<forall>i<n. \<not> active (cs ! i))) \<and>
            (density cfg = Num 1 \<longrightarrow>
               (\<forall>i<n. active (cs ! i) \<longleftrightarrow> draw_at (4 * i) g \<noteq> UINT32_MAX))"
    by blast
qed

theorem construct_activity_amended_witness:
  "(0::int) < 24 \<and> 24 \<le> INT_MAX \<and>
   (\<exists>c g'. init_column
              \<lparr>speed_mul = Num 1, density = Num 1, bold_head = False, fade_trail = True,
               target_fps = 60\<rparr> 24 \<lparr>s = 1, seed_src = 0\<rparr> = Inr (c, g') \<and> active c) \<and>
   (\<exists>cs g'. init_columns
              \<lparr>speed_mul = Num 1, density = Num 1, bold_head = False, fade_trail = True,
               target_fps = 60\<rparr> 24 2 \<lparr>s = 2024368274305121281, seed_src = 0\<rparr> = Inr (cs, g') \<and>
            length cs = 2 \<and> \<not> active (cs ! 0) \<and> active (cs ! 1))"
proof -
  let ?cfg = "\<lparr>speed_mul = Num 1, density = Num 1, bold_head = False, fade_trail = True,
               target_fps = 60\<rparr>"
  have r: "(0::int) < 24" "24 \<le> INT_MAX" by (simp_all add: INT_MAX_def)
  from construct_activity_amended [OF r, of ?cfg "\<lparr>s = 1, seed_src = 0\<rparr>"]
  have one: "\<exists>c g'. init_column ?cfg 24 \<lparr>s = 1, seed_src = 0\<rparr> = Inr (c, g') \<and> active c"
    by (simp add: stepB1 UINT32_MAX_def)
  from construct_activity_amended [OF r, of ?cfg "\<lparr>s = 2024368274305121281, seed_src = 0\<rparr>" 2]
  obtain cs g' where run: "init_columns ?cfg 24 2 \<lparr>s = 2024368274305121281, seed_src = 0\<rparr>
      = Inr (cs, g')" and len: "length cs = 2"
    and act: "\<forall>i<2. active (cs ! i) \<longleftrightarrow>
        draw_at (4 * i) \<lparr>s = 2024368274305121281, seed_src = 0\<rparr> \<noteq> UINT32_MAX"
    by auto
  from act have "active (cs ! 0) \<longleftrightarrow>
      draw_at (4 * 0) \<lparr>s = 2024368274305121281, seed_src = 0\<rparr> \<noteq> UINT32_MAX"
    by simp
  then have a0: "\<not> active (cs ! 0)"
    by (simp add: drawsA UINT32_MAX_def)
  from act have "active (cs ! 1) \<longleftrightarrow>
      draw_at (4 * 1) \<lparr>s = 2024368274305121281, seed_src = 0\<rparr> \<noteq> UINT32_MAX"
    by simp
  then have a1: "active (cs ! 1)"
    by (simp add: drawA4 UINT32_MAX_def)
  from r one run len a0 a1 show ?thesis by blast
qed

subsection \<open>C5: the reset law\<close>

text \<open>
  C5: for an active column in a viewport of positive height, if the reset condition
  \<open>head_y - tail > maxy\<close> holds after the head advance, then the same tick returns the
  column built by the construction formulas from four fresh draws (activity, head, tail,
  speed are drawn in this order; construction draws activity, tail, speed, head), and
  its head is at or above row 0. The last conjunct is construction on the same
  generator state, for comparison. The hypothesis \<open>0 \<le> tail c\<close> keeps \<open>head_y - tail\<close>
  inside \<open>int\<close>; every column of a run satisfies it (C6).
\<close>

theorem reset_law:
  assumes "active c" "0 < rows" "rows \<le> INT_MAX" "0 \<le> tail c"
    "advance_head c g = Inr (c1, g1)" "rows < head_y c1 - tail c1"
  shows "\<exists>c2. tick_column cfg rows c g = Inr (c2, after 4 g1) \<and>
     c2 = fresh_column cfg (float_of (draw_at 0 g1)) (int_of 20 (draw_at 2 g1))
            (float_of (draw_at 3 g1)) (int_of rows (draw_at 1 g1)) \<and>
     head_y c2 \<le> 0 \<and> - rows < head_y c2 \<and>
     init_column cfg rows g1 =
       Inr (fresh_column cfg (float_of (draw_at 0 g1)) (int_of 20 (draw_at 1 g1))
              (float_of (draw_at 2 g1)) (int_of rows (draw_at 3 g1)), after 4 g1)"
proof -
  have "is_int (head_y c1)" "tail c1 = tail c"
    using advance_head_result [OF assms(5)] by simp_all
  then have "is_int (head_y c1 - tail c1)"
    using assms(2,4,6) unfolding is_int_def INT_MIN_def by linarith
  then have "tick_column cfg rows c g = reset_column cfg rows c1 g1"
    using assms(1,5,6) by (simp add: tick_column_reset)
  moreover have "0 \<le> int_of rows (draw_at 1 g1)" "int_of rows (draw_at 1 g1) < rows"
    using assms(2,3) by (rule int_of_range)+
  ultimately show ?thesis
    by (simp add: reset_column_eq [OF assms(2,3)] init_column_eq [OF assms(2,3)])
qed

theorem reset_law_witness:
  "active \<lparr>head_y = 30, tail = 5, speed = Num 2, active = True\<rparr> \<and> (0::int) < 24 \<and> 24 \<le> INT_MAX \<and>
   0 \<le> tail \<lparr>head_y = 30, tail = 5, speed = Num 2, active = True\<rparr> \<and>
   advance_head \<lparr>head_y = 30, tail = 5, speed = Num 2, active = True\<rparr> \<lparr>s = 1, seed_src = 0\<rparr> =
     Inr (\<lparr>head_y = 32, tail = 5, speed = Num 2, active = True\<rparr>, \<lparr>s = 1, seed_src = 0\<rparr>) \<and>
   tick_column default_config 24 \<lparr>head_y = 30, tail = 5, speed = Num 2, active = True\<rparr>
       \<lparr>s = 1, seed_src = 0\<rparr> =
     Inr (\<lparr>head_y = - 17, tail = 22, speed = Num (3405458232 / 7158278825), active = True\<rparr>,
          \<lparr>s = 1155177853061972039, seed_src = 0\<rparr>)"
proof -
  have adv: "advance_head \<lparr>head_y = 30, tail = 5, speed = Num 2, active = True\<rparr>
       \<lparr>s = 1, seed_src = 0\<rparr> =
     Inr (\<lparr>head_y = 32, tail = 5, speed = Num 2, active = True\<rparr>, \<lparr>s = 1, seed_src = 0\<rparr>)"
    by (simp add: advance_head_fast INT_MAX_def INT_MIN_def is_int_def)
  show ?thesis
    using reset_law [of "\<lparr>head_y = 30, tail = 5, speed = Num 2, active = True\<rparr>" 24,
        OF _ _ _ _ adv, of default_config]
    by (simp add: adv drawsB fresh_column_def default_config_def float_of_def int_of_def
        UINT32_MAX_def INT_MAX_def)
qed

subsection \<open>C6: range of the tail length\<close>

lemma init_column_tail:
  assumes "init_column cfg rows g = Inr (c, g')"
  shows "tail_ok c"
proof -
  from assms obtain u h a sp where "c = \<lparr>head_y = h, tail = 5 + int_of 20 u, speed = sp, active = a\<rparr>"
    by (auto simp: init_column_def drand_eq irand_eq bnd_eq_Inr int_result_Inr split: if_splits)
  then show ?thesis
    using int_of_range [of 20 u] by (simp add: tail_ok_def)
qed

lemma reset_column_tail:
  assumes "reset_column cfg rows c g = Inr (c', g')"
  shows "tail_ok c'"
proof -
  from assms obtain u where "tail c' = 5 + int_of 20 u"
    by (auto simp: reset_column_def drand_eq irand_eq bnd_eq_Inr int_result_Inr split: if_splits)
  then show ?thesis
    using int_of_range [of 20 u] by (simp add: tail_ok_def)
qed

lemma start_column_tail:
  assumes "start_column cfg rows c g = Inr (c', g')"
  shows "tail_ok c'"
proof -
  from assms obtain u where "tail c' = 5 + int_of 20 u"
    by (auto simp: start_column_def drand_eq irand_eq bnd_eq_Inr int_result_Inr split: if_splits)
  then show ?thesis
    using int_of_range [of 20 u] by (simp add: tail_ok_def)
qed

lemma tick_column_tail:
  assumes "tail_ok c" "tick_column cfg rows c g = Inr (c', g')"
  shows "tail_ok c'"
proof (cases "active c")
  case True
  with assms(2) obtain c1 g1 where adv: "advance_head c g = Inr (c1, g1)"
    and k: "reset_column cfg rows c1 g1 = Inr (c', g') \<or> c' = c1"
    by (auto simp: tick_column_active bnd_eq_Inr split: if_splits)
  have "tail_ok c1"
    using advance_head_result(2) [OF adv] assms(1) by (simp add: tail_ok_def)
  with k show ?thesis
    by (auto dest: reset_column_tail)
next
  case False
  with assms(2) have "start_column cfg rows c (after 1 g) = Inr (c', g') \<or> c' = c"
    by (auto simp: tick_column_def drand_eq split: if_splits)
  with assms(1) show ?thesis
    by (auto dest: start_column_tail)
qed

lemma iteration_tails:
  assumes "nat (maxx st) \<le> length (cols st) \<and> (\<forall>c\<in>set (cols st). tail_ok c)"
    and "iteration cfg st f = Inr (Next st')"
  shows "nat (maxx st') \<le> length (cols st') \<and> (\<forall>c\<in>set (cols st'). tail_ok c)"
proof -
  from iteration_Next [OF assms(2)] obtain st1 st2
    where st1: "st1 = st \<or> st1 = st\<lparr>paused := \<not> paused st\<rparr>"
      and rs: "handle_resize cfg st1 f = Inr (Some st2)"
      and k: "st' = st2 \<or>
        (\<exists>cs g1 g2. simulate cfg (maxy st2) (cols st2) (rng st2) = Inr (cs, g1) \<and>
           st' = st2\<lparr>cols := cs, rng := g2\<rparr>)"
    by blast
  have i1: "nat (maxx st1) \<le> length (cols st1)" "\<forall>c\<in>set (cols st1). tail_ok c"
    using st1 assms(1) by auto
  have i2: "nat (maxx st2) \<le> length (cols st2) \<and> (\<forall>c\<in>set (cols st2). tail_ok c)"
    using handle_resize_cols [OF rs i1(1)]
  proof
    assume "st2 = st1"
    with i1 show ?thesis by simp
  next
    assume h: "nat (maxx st2) \<le> length (cols st2) \<and> paused st2 = paused st1 \<and>
     (maxy st2 = maxy st1 \<or> maxy st2 = ny f) \<and>
     (\<exists>new g. init_columns cfg (ny f) (nat (nx f - maxx st1)) (rng st1) = Inr (new, g) \<and>
        set (cols st2) \<subseteq> set (cols st1) \<union> set new)"
    then obtain new g
      where new: "init_columns cfg (ny f) (nat (nx f - maxx st1)) (rng st1) = Inr (new, g)"
        and sub: "set (cols st2) \<subseteq> set (cols st1) \<union> set new"
      by blast
    have "\<forall>c\<in>set new. tail_ok c"
      using init_column_tail new by (rule init_columns_result)
    with sub i1(2) h show ?thesis by blast
  qed
  from k show ?thesis
  proof
    assume "st' = st2"
    with i2 show ?thesis by simp
  next
    assume "\<exists>cs g1 g2. simulate cfg (maxy st2) (cols st2) (rng st2) = Inr (cs, g1) \<and>
           st' = st2\<lparr>cols := cs, rng := g2\<rparr>"
    then obtain cs g1 g2 where sim: "simulate cfg (maxy st2) (cols st2) (rng st2) = Inr (cs, g1)"
      and st': "st' = st2\<lparr>cols := cs, rng := g2\<rparr>"
      by blast
    have "\<forall>c\<in>set (cols st2). tail_ok c"
      using i2 by simp
    with tick_column_tail have "(\<forall>c\<in>set cs. tail_ok c) \<and> length cs = length (cols st2)"
      using sim by (rule simulate_result)
    with i2 show ?thesis by (simp add: st')
  qed
qed

text \<open>A run of one frame: one column, 24 rows, seed source 0, no key, no resize.\<close>

lemma sample_init:
  "init_column default_config 24 \<lparr>s = 0, seed_src = 0\<rparr> =
     Inr (\<lparr>head_y = - 23, tail = 14, speed = Num (10705755324 / 7158278825), active = True\<rparr>,
          \<lparr>s = 1155177853061972039, seed_src = 0\<rparr>)"
  by (simp add: init_column_eq drawsZ fresh_column_def default_config_def float_of_def
      int_of_def UINT32_MAX_def INT_MAX_def)

lemma sample_tick:
  "tick_column default_config 24
     \<lparr>head_y = - 23, tail = 14, speed = Num (10705755324 / 7158278825), active = True\<rparr>
     \<lparr>s = 1155177853061972039, seed_src = 0\<rparr> =
   Inr (\<lparr>head_y = - 22, tail = 14, speed = Num (10705755324 / 7158278825), active = True\<rparr>,
        \<lparr>s = 1155177853061972039, seed_src = 0\<rparr>)"
  by (simp add: tick_column_active advance_head_fast is_int_def INT_MAX_def INT_MIN_def)

lemma sample_draw:
  "draw_column 24
     \<lparr>head_y = - 22, tail = 14, speed = Num (10705755324 / 7158278825), active = True\<rparr>
     \<lparr>s = 1155177853061972039, seed_src = 0\<rparr> = Inr \<lparr>s = 1155177853061972039, seed_src = 0\<rparr>"
  by (simp add: draw_column_def is_int_def INT_MAX_def INT_MIN_def)

lemma sample_run:
  "matrix_main atof_sample atoi_sample [''matrix'']
     \<lparr>maxy0 = 24, maxx0 = 1, alloc0 = True, seed0 = 0\<rparr>
     [\<lparr>key = - 1, ny = 24, nx = 1, alloc_ok = True\<rparr>] =
   Running \<lparr>cols = [\<lparr>head_y = - 22, tail = 14, speed = Num (10705755324 / 7158278825),
                       active = True\<rparr>],
            maxx = 1, maxy = 24, paused = False,
            rng = \<lparr>s = 1155177853061972039, seed_src = 0\<rparr>\<rparr> [Initscr]"
  by (simp add: matrix_main_def sample_init iteration_def handle_resize_def sample_tick
      sample_draw)

text \<open>
  C6: in every state a run of the program reaches, after construction and after any
  number of frames (with their resets, new rain and resizes), every column of the field
  has a tail length of at least 5 and at most 24.
\<close>

theorem tail_length_range:
  assumes "matrix_main atof atoi argv su frames = Running st effs"
  shows "\<forall>c\<in>set (cols st). 5 \<le> tail c \<and> tail c \<le> 24"
proof -
  from matrix_main_Running [OF assms] obtain cfg cs g
    where init: "init_columns cfg (maxy0 su) (nat (maxx0 su)) \<lparr>s = 0, seed_src = seed0 su\<rparr>
                   = Inr (cs, g)"
      and loop: "main_loop cfg
                   \<lparr>cols = cs, maxx = maxx0 su, maxy = maxy0 su, paused = False, rng = g\<rparr> frames
                   = Inr (Next st)"
    by blast
  let ?I = "\<lambda>st. nat (maxx st) \<le> length (cols st) \<and> (\<forall>c\<in>set (cols st). tail_ok c)"
  have "\<forall>c\<in>set cs. tail_ok c"
    using init_column_tail init by (rule init_columns_result)
  moreover have "length cs = nat (maxx0 su)"
    using init by (rule init_columns_length)
  ultimately have "?I \<lparr>cols = cs, maxx = maxx0 su, maxy = maxy0 su, paused = False, rng = g\<rparr>"
    by simp
  then have "?I st"
    using loop by (rule main_loop_invariant [where I = ?I, rotated]) (rule iteration_tails)
  then show ?thesis
    by (simp add: tail_ok_def)
qed

theorem tail_length_range_witness:
  "matrix_main atof_sample atoi_sample [''matrix'']
     \<lparr>maxy0 = 24, maxx0 = 1, alloc0 = True, seed0 = 0\<rparr>
     [\<lparr>key = - 1, ny = 24, nx = 1, alloc_ok = True\<rparr>] =
   Running \<lparr>cols = [\<lparr>head_y = - 22, tail = 14, speed = Num (10705755324 / 7158278825),
                       active = True\<rparr>],
            maxx = 1, maxy = 24, paused = False,
            rng = \<lparr>s = 1155177853061972039, seed_src = 0\<rparr>\<rparr> [Initscr] \<and>
   5 \<le> tail \<lparr>head_y = - 22, tail = 14, speed = Num (10705755324 / 7158278825),
              active = True\<rparr> \<and>
   tail \<lparr>head_y = - 22, tail = 14, speed = Num (10705755324 / 7158278825),
         active = True\<rparr> \<le> 24"
  using tail_length_range [OF sample_run] by (simp add: sample_run)

subsection \<open>C7: monotonic fall\<close>

text \<open>
  Where the head advance is defined the claim holds: for an active column with
  positive speed the advance adds a step \<open>\<ge> 0\<close> to \<open>head_y\<close> and changes nothing else;
  the step is 0 or 1 for \<open>speed < 1.0\<close> and \<open>floor(speed) \<ge> 1\<close> otherwise; and when the
  reset condition is false after the advance, the advanced column is the result of the
  tick. The advance is defined whenever \<open>speed < 2^31\<close> and
  \<open>head_y + max(1, floor(speed))\<close> is an \<open>int\<close>.
\<close>

lemma monotonic_fall_in_range:
  assumes "active c" "dlt (Num 0) (speed c)"
  shows "(\<forall>c1 g1. advance_head c g = Inr (c1, g1) \<longrightarrow>
            (\<exists>step. c1 = c\<lparr>head_y := head_y c + step\<rparr> \<and> 0 \<le> step \<and>
               (dlt (speed c) (Num 1) \<longrightarrow> step = 0 \<or> step = 1) \<and>
               (\<not> dlt (speed c) (Num 1) \<longrightarrow> (\<exists>r. speed c = Num r \<and> step = \<lfloor>r\<rfloor> \<and> 1 \<le> step))) \<and>
            (is_int (head_y c1 - tail c1) \<and> \<not> rows < head_y c1 - tail c1 \<longrightarrow>
               tick_column cfg rows c g = Inr (c1, g1))) \<and>
         (\<forall>r. speed c = Num r \<and> r < 2147483648 \<and> is_int (head_y c) \<and>
               head_y c + max 1 \<lfloor>r\<rfloor> \<le> INT_MAX \<longrightarrow>
            (\<exists>c1 g1. advance_head c g = Inr (c1, g1)))"
proof (intro conjI allI impI)
  fix c1 g1
  assume adv: "advance_head c g = Inr (c1, g1)"
  show "\<exists>step. c1 = c\<lparr>head_y := head_y c + step\<rparr> \<and> 0 \<le> step \<and>
               (dlt (speed c) (Num 1) \<longrightarrow> step = 0 \<or> step = 1) \<and>
               (\<not> dlt (speed c) (Num 1) \<longrightarrow> (\<exists>r. speed c = Num r \<and> step = \<lfloor>r\<rfloor> \<and> 1 \<le> step))"
    using assms(2) adv by (rule advance_head_monotone)
  assume "is_int (head_y c1 - tail c1) \<and> \<not> rows < head_y c1 - tail c1"
  then show "tick_column cfg rows c g = Inr (c1, g1)"
    using assms(1) adv by (simp add: tick_column_no_reset)
next
  fix r
  assume r: "speed c = Num r \<and> r < 2147483648 \<and> is_int (head_y c) \<and>
               head_y c + max 1 \<lfloor>r\<rfloor> \<le> INT_MAX"
  then have "0 < r" using assms(2) by simp
  with r show "\<exists>c1 g1. advance_head c g = Inr (c1, g1)"
    by (intro advance_head_defined [of c r]) simp_all
qed

lemma monotonic_fall_in_range_example:
  "active \<lparr>head_y = 0, tail = 5, speed = Num 2, active = True\<rparr> \<and>
   dlt (Num 0) (speed \<lparr>head_y = 0, tail = 5, speed = Num 2, active = True\<rparr>) \<and>
   advance_head \<lparr>head_y = 0, tail = 5, speed = Num 2, active = True\<rparr> \<lparr>s = 1, seed_src = 0\<rparr> =
     Inr (\<lparr>head_y = 2, tail = 5, speed = Num 2, active = True\<rparr>, \<lparr>s = 1, seed_src = 0\<rparr>) \<and>
   tick_column default_config 24 \<lparr>head_y = 0, tail = 5, speed = Num 2, active = True\<rparr>
       \<lparr>s = 1, seed_src = 0\<rparr> =
     Inr (\<lparr>head_y = 2, tail = 5, speed = Num 2, active = True\<rparr>, \<lparr>s = 1, seed_src = 0\<rparr>)"
proof -
  have adv: "advance_head \<lparr>head_y = 0, tail = 5, speed = Num 2, active = True\<rparr>
       \<lparr>s = 1, seed_src = 0\<rparr> =
     Inr (\<lparr>head_y = 2, tail = 5, speed = Num 2, active = True\<rparr>, \<lparr>s = 1, seed_src = 0\<rparr>)"
    by (simp add: advance_head_fast INT_MAX_def INT_MIN_def is_int_def)
  show ?thesis
    using monotonic_fall_in_range [of "\<lparr>head_y = 0, tail = 5, speed = Num 2, active = True\<rparr>"
        "\<lparr>s = 1, seed_src = 0\<rparr>" 24 default_config]
    by (simp add: adv is_int_def INT_MAX_def INT_MIN_def)
qed

lemma head_advance_undefined:
  "advance_head \<lparr>head_y = 0, tail = 5, speed = Num 4000000000, active = True\<rparr>
     \<lparr>s = 1, seed_src = 0\<rparr> = Inl FloatToIntOverflow"
  by (simp add: advance_head_fast INT_MAX_def INT_MIN_def)

lemma fast_args:
  "parse_args atof_sample atoi_sample default_config (drop 1 [''matrix'', ''--speed'', ''1e10'']) =
     Inr \<lparr>speed_mul = Num 10000000000, density = Num (1 / 4), bold_head = False,
          fade_trail = True, target_fps = 60\<rparr>"
  by (simp add: atof_sample_def default_config_def)

lemma fast_init:
  "init_column
     \<lparr>speed_mul = Num 10000000000, density = Num (1 / 4), bold_head = False, fade_trail = True,
      target_fps = 60\<rparr> 24 \<lparr>s = 0, seed_src = 0\<rparr> =
     Inr (\<lparr>head_y = - 23, tail = 14, speed = Num (4282302129600000000 / 286331153), active = True\<rparr>,
          \<lparr>s = 1155177853061972039, seed_src = 0\<rparr>)"
  by (simp add: init_column_eq drawsZ fresh_column_def float_of_def
      int_of_def UINT32_MAX_def INT_MAX_def)

lemma fast_tick:
  "tick_column cfg 24
     \<lparr>head_y = - 23, tail = 14, speed = Num (4282302129600000000 / 286331153), active = True\<rparr> g =
   Inl FloatToIntOverflow"
  by (simp add: tick_column_active advance_head_fast INT_MAX_def INT_MIN_def)

text \<open>
  C7 says that for every active column with positive speed the head never decreases
  in a tick without reset, the step being \<open>floor(speed)\<close> for \<open>speed \<ge> 1.0\<close>. The
  multiplier of \<open>--speed\<close> is not bounded (unlike \<open>--fps\<close> and \<open>--density\<close>): with
  \<open>--speed 1e10\<close> every column has a speed of at least \<open>4e9\<close>, and the first tick of
  an active column converts it with \<open>(int)speed\<close>, which has no defined result for a
  value of \<open>2^31\<close> or more. The run below is one column, 24 rows, seed source 0.
\<close>

theorem huge_speed_run:
  "matrix_main atof_sample atoi_sample [''matrix'', ''--speed'', ''1e10'']
     \<lparr>maxy0 = 24, maxx0 = 1, alloc0 = True, seed0 = 0\<rparr>
     [\<lparr>key = - 1, ny = 24, nx = 1, alloc_ok = True\<rparr>] =
   Undefined FloatToIntOverflow [Initscr]"
  unfolding matrix_main_def fast_args
  by (simp add: fast_init iteration_def handle_resize_def fast_tick)

subsection \<open>C8: reflow preservation\<close>

text \<open>
  C8: when the width grows from \<open>maxx st\<close> to \<open>nx f\<close> (the field holding one column
  per old terminal column), every resize that returns a field returns one of the new
  width in which each index below the old width holds exactly the old column, and the
  columns from the old width on are the result of the construction loop with the new
  height. Such a field is returned whenever the allocation succeeds and the new height
  is positive.
\<close>

theorem reflow_preservation:
  assumes "maxx st < nx f" "0 \<le> maxx st" "length (cols st) = nat (maxx st)"
  shows "(\<forall>st'. handle_resize cfg st f = Inr (Some st') \<longrightarrow>
            length (cols st') = nat (nx f) \<and> maxx st' = nx f \<and> maxy st' = ny f \<and>
            (\<forall>x < nat (maxx st). cols st' ! x = cols st ! x) \<and>
            init_columns cfg (ny f) (nat (nx f - maxx st)) (rng st) =
              Inr (drop (nat (maxx st)) (cols st'), rng st')) \<and>
         (alloc_ok f \<and> 0 < ny f \<and> ny f \<le> INT_MAX \<longrightarrow>
            (\<exists>st'. handle_resize cfg st f = Inr (Some st')))"
proof
  show "\<forall>st'. handle_resize cfg st f = Inr (Some st') \<longrightarrow>
            length (cols st') = nat (nx f) \<and> maxx st' = nx f \<and> maxy st' = ny f \<and>
            (\<forall>x < nat (maxx st). cols st' ! x = cols st ! x) \<and>
            init_columns cfg (ny f) (nat (nx f - maxx st)) (rng st) =
              Inr (drop (nat (maxx st)) (cols st'), rng st')"
  proof (intro allI impI)
    fix st'
    assume r: "handle_resize cfg st f = Inr (Some st')"
    then have "alloc_ok f"
      using assms(1) by (rule handle_resize_Some_alloc)
    with r obtain new g
      where new: "init_columns cfg (ny f) (nat (nx f - maxx st)) (rng st) = Inr (new, g)"
        and st': "st' = st\<lparr>cols := cols st @ new, maxx := nx f, maxy := ny f, rng := g\<rparr>"
      by (auto simp: handle_resize_grow [OF assms] bnd_eq_Inr)
    have len: "length new = nat (nx f - maxx st)"
      using new by (rule init_columns_length)
    have "length (cols st') = nat (nx f)"
      using assms len by (simp add: st')
    moreover have "maxx st' = nx f" "maxy st' = ny f"
      by (simp_all add: st')
    moreover have "\<forall>x < nat (maxx st). cols st' ! x = cols st ! x"
      using assms(3) by (simp add: st' nth_append)
    moreover have "init_columns cfg (ny f) (nat (nx f - maxx st)) (rng st) =
              Inr (drop (nat (maxx st)) (cols st'), rng st')"
      using assms(3) new by (simp add: st')
    ultimately show "length (cols st') = nat (nx f) \<and> maxx st' = nx f \<and> maxy st' = ny f \<and>
            (\<forall>x < nat (maxx st). cols st' ! x = cols st ! x) \<and>
            init_columns cfg (ny f) (nat (nx f - maxx st)) (rng st) =
              Inr (drop (nat (maxx st)) (cols st'), rng st')"
      by blast
  qed
next
  show "alloc_ok f \<and> 0 < ny f \<and> ny f \<le> INT_MAX \<longrightarrow>
            (\<exists>st'. handle_resize cfg st f = Inr (Some st'))"
  proof
    assume a: "alloc_ok f \<and> 0 < ny f \<and> ny f \<le> INT_MAX"
    then have "\<exists>cs g'. init_columns cfg (ny f) (nat (nx f - maxx st)) (rng st) = Inr (cs, g') \<and>
        length cs = nat (nx f - maxx st) \<and> (\<forall>c\<in>set cs. True)"
      by (intro init_columns_all) simp_all
    then show "\<exists>st'. handle_resize cfg st f = Inr (Some st')"
      using a assms by (auto simp: handle_resize_grow)
  qed
qed

theorem reflow_preservation_witness:
  "maxx \<lparr>cols = [\<lparr>head_y = 3, tail = 9, speed = Num 1, active = True\<rparr>], maxx = 1, maxy = 24,
          paused = False, rng = \<lparr>s = 1, seed_src = 0\<rparr>\<rparr>
     < nx \<lparr>key = - 1, ny = 24, nx = 2, alloc_ok = True\<rparr> \<and>
   handle_resize default_config
     \<lparr>cols = [\<lparr>head_y = 3, tail = 9, speed = Num 1, active = True\<rparr>], maxx = 1, maxy = 24,
      paused = False, rng = \<lparr>s = 1, seed_src = 0\<rparr>\<rparr>
     \<lparr>key = - 1, ny = 24, nx = 2, alloc_ok = True\<rparr> =
   Inr (Some \<lparr>cols = [\<lparr>head_y = 3, tail = 9, speed = Num 1, active = True\<rparr>,
                       \<lparr>head_y = - 23, tail = 14, speed = Num (10705755324 / 7158278825),
                        active = True\<rparr>],
              maxx = 2, maxy = 24, paused = False,
              rng = \<lparr>s = 1155177853061972039, seed_src = 0\<rparr>\<rparr>)"
proof -
  have new: "init_column default_config 24 \<lparr>s = 1, seed_src = 0\<rparr> =
      Inr (\<lparr>head_y = - 23, tail = 14, speed = Num (10705755324 / 7158278825), active = True\<rparr>,
           \<lparr>s = 1155177853061972039, seed_src = 0\<rparr>)"
    by (simp add: init_column_eq drawsB fresh_column_def default_config_def float_of_def
        int_of_def UINT32_MAX_def INT_MAX_def)
  show ?thesis
    using reflow_preservation
      [of "\<lparr>cols = [\<lparr>head_y = 3, tail = 9, speed = Num 1, active = True\<rparr>], maxx = 1,
             maxy = 24, paused = False, rng = \<lparr>s = 1, seed_src = 0\<rparr>\<rparr>"
          "\<lparr>key = - 1, ny = 24, nx = 2, alloc_ok = True\<rparr>" default_config]
    by (simp add: handle_resize_grow new)
qed

subsection \<open>C9: clamping of \<open>--density\<close>\<close>

text \<open>
  For every \<open>--density\<close> argument whose value is not NaN, parsing goes on with the
  remaining arguments and a density \<open>d\<close> in \<open>[0, 1]\<close>, which is 0 for a value below 0,
  1 for a value above 1, and the value itself otherwise.
\<close>

lemma density_clamp_non_nan:
  assumes "atof v \<noteq> NaN"
  shows "\<exists>d. parse_args atof atoi cfg (''--density'' # v # rest) =
            parse_args atof atoi (cfg\<lparr>density := Num d\<rparr>) rest \<and>
          0 \<le> d \<and> d \<le> 1 \<and>
          (dlt (atof v) (Num 0) \<longrightarrow> d = 0) \<and>
          (dlt (Num 1) (atof v) \<longrightarrow> d = 1) \<and>
          (\<forall>x. atof v = Num x \<and> 0 \<le> x \<and> x \<le> 1 \<longrightarrow> d = x)"
proof (cases "atof v")
  case (Num x)
  show ?thesis
  proof (cases "x < 0")
    case True
    with Num show ?thesis by (intro exI [of _ 0]) (simp add: Let_def)
  next
    case False
    show ?thesis
    proof (cases "1 < x")
      case True
      with Num show ?thesis by (intro exI [of _ 1]) (simp add: Let_def)
    next
      case False
      with Num \<open>\<not> x < 0\<close> show ?thesis by (intro exI [of _ x]) (simp add: Let_def)
    qed
  qed
next
  case PInf
  then show ?thesis by (intro exI [of _ 1]) (simp add: Let_def)
next
  case NInf
  then show ?thesis by (intro exI [of _ 0]) (simp add: Let_def)
next
  case NaN
  with assms show ?thesis by simp
qed

text \<open>
  A density of NaN and a density of 0 give the same columns and the same runs: every
  use of the density is a comparison \<open>drand() < density\<close>, which is false for both,
  since \<open>drand()\<close> is not negative.
\<close>

lemma init_column_nan:
  "init_column (c\<lparr>density := NaN\<rparr>) rows g = init_column (c\<lparr>density := Num 0\<rparr>) rows g"
  by (simp add: init_column_def drand_eq float_of_not_neg)

lemma init_columns_nan:
  "init_columns (c\<lparr>density := NaN\<rparr>) rows n g = init_columns (c\<lparr>density := Num 0\<rparr>) rows n g"
  by (induction n arbitrary: g) (simp_all add: init_column_nan)

lemma reset_column_nan:
  "reset_column (c\<lparr>density := NaN\<rparr>) rows col g = reset_column (c\<lparr>density := Num 0\<rparr>) rows col g"
  by (simp add: reset_column_def drand_eq float_of_not_neg)

lemma start_column_nan:
  "start_column (c\<lparr>density := NaN\<rparr>) rows col g = start_column (c\<lparr>density := Num 0\<rparr>) rows col g"
  by (simp add: start_column_def)

lemma tick_column_nan:
  "tick_column (c\<lparr>density := NaN\<rparr>) rows col g = tick_column (c\<lparr>density := Num 0\<rparr>) rows col g"
  unfolding tick_column_def reset_column_nan start_column_nan
  by (simp add: drand_eq float_of_not_neg)

lemma simulate_nan:
  "simulate (c\<lparr>density := NaN\<rparr>) rows cs g = simulate (c\<lparr>density := Num 0\<rparr>) rows cs g"
  by (induction cs arbitrary: g) (simp_all add: tick_column_nan)

lemma handle_resize_nan:
  "handle_resize (c\<lparr>density := NaN\<rparr>) st f = handle_resize (c\<lparr>density := Num 0\<rparr>) st f"
  by (simp add: handle_resize_def init_columns_nan)

lemma iteration_nan:
  "iteration (c\<lparr>density := NaN\<rparr>) st f = iteration (c\<lparr>density := Num 0\<rparr>) st f"
  unfolding iteration_def handle_resize_nan simulate_nan ..

lemma main_loop_nan:
  "main_loop (c\<lparr>density := NaN\<rparr>) st fs = main_loop (c\<lparr>density := Num 0\<rparr>) st fs"
proof (induction fs arbitrary: st)
  case Nil
  show ?case by simp
next
  case (Cons f fs)
  show ?case
    unfolding main_loop.simps iteration_nan Cons.IH ..
qed

lemma density_update_last:
  "(c\<lparr>density := d\<rparr>)\<lparr>speed_mul := x\<rparr> = (c\<lparr>speed_mul := x\<rparr>)\<lparr>density := d\<rparr>"
  "(c\<lparr>density := d\<rparr>)\<lparr>bold_head := b\<rparr> = (c\<lparr>bold_head := b\<rparr>)\<lparr>density := d\<rparr>"
  "(c\<lparr>density := d\<rparr>)\<lparr>fade_trail := b\<rparr> = (c\<lparr>fade_trail := b\<rparr>)\<lparr>density := d\<rparr>"
  "(c\<lparr>density := d\<rparr>)\<lparr>target_fps := k\<rparr> = (c\<lparr>target_fps := k\<rparr>)\<lparr>density := d\<rparr>"
  by (cases c; simp)+

text \<open>The options one by one, with the density set last.\<close>

lemma pa_speed:
  "rest \<noteq> [] \<Longrightarrow> parse_args atof atoi (c\<lparr>density := d\<rparr>) (''--speed'' # rest) =
     parse_args atof atoi ((c\<lparr>speed_mul := atof (hd rest)\<rparr>)\<lparr>density := d\<rparr>) (tl rest)"
  by (simp add: density_update_last)

lemma pa_density:
  "rest \<noteq> [] \<Longrightarrow> parse_args atof atoi (c\<lparr>density := d\<rparr>) (''--density'' # rest) =
     parse_args atof atoi
       (c\<lparr>density := (let d0 = atof (hd rest);
                          d1 = (if dlt d0 (Num 0) then Num 0 else d0)
                      in if dlt (Num 1) d1 then Num 1 else d1)\<rparr>) (tl rest)"
  by (simp add: Let_def)

lemma pa_bold:
  "parse_args atof atoi (c\<lparr>density := d\<rparr>) (''--bold'' # rest) =
     parse_args atof atoi ((c\<lparr>bold_head := True\<rparr>)\<lparr>density := d\<rparr>) rest"
  by (simp add: density_update_last)

lemma pa_fade:
  "parse_args atof atoi (c\<lparr>density := d\<rparr>) (''--no-fade'' # rest) =
     parse_args atof atoi ((c\<lparr>fade_trail := False\<rparr>)\<lparr>density := d\<rparr>) rest"
  by (simp add: density_update_last)

lemma pa_fps:
  "rest \<noteq> [] \<Longrightarrow> parse_args atof atoi (c\<lparr>density := d\<rparr>) (''--fps'' # rest) =
     parse_args atof atoi
       ((c\<lparr>target_fps := (let n0 = atoi (hd rest); n1 = (if n0 < 10 then 10 else n0)
                            in if n1 > 240 then 240 else n1)\<rparr>)\<lparr>density := d\<rparr>) (tl rest)"
  by (simp add: Let_def density_update_last)

lemma pa_other:
  assumes "\<not> (a = ''--speed'' \<and> rest \<noteq> [])" "\<not> (a = ''--density'' \<and> rest \<noteq> [])"
    "a \<noteq> ''--bold''" "a \<noteq> ''--no-fade''" "\<not> (a = ''--fps'' \<and> rest \<noteq> [])"
  shows "parse_args atof atoi cfg (a # rest) = (if a = ''--help'' then Inl 0 else Inl 1)"
  unfolding parse_args.simps using assms by (simp only: if_False)

lemma parse_args_nan:
  "parse_args atof atoi (c\<lparr>density := NaN\<rparr>) args =
     parse_args atof atoi (c\<lparr>density := Num 0\<rparr>) args \<or>
   (\<exists>c'. parse_args atof atoi (c\<lparr>density := NaN\<rparr>) args = Inr (c'\<lparr>density := NaN\<rparr>) \<and>
         parse_args atof atoi (c\<lparr>density := Num 0\<rparr>) args = Inr (c'\<lparr>density := Num 0\<rparr>))"
proof (induction args arbitrary: c rule: length_induct)
  case (1 args)
  show ?case
  proof (cases args)
    case Nil
    then show ?thesis by (intro disjI2 exI [of _ c]) simp
  next
    case (Cons a rest)
    have ih: "length xs < length args \<Longrightarrow>
      parse_args atof atoi (c'\<lparr>density := NaN\<rparr>) xs =
        parse_args atof atoi (c'\<lparr>density := Num 0\<rparr>) xs \<or>
      (\<exists>c''. parse_args atof atoi (c'\<lparr>density := NaN\<rparr>) xs = Inr (c''\<lparr>density := NaN\<rparr>) \<and>
         parse_args atof atoi (c'\<lparr>density := Num 0\<rparr>) xs = Inr (c''\<lparr>density := Num 0\<rparr>))"
      for xs c'
      using "1.IH" [rule_format, of xs c'] .
    have r1: "length rest < length args"
      using Cons by simp
    have r2: "length (tl rest) < length args"
      using Cons by simp
    show ?thesis
    proof (cases "a = ''--speed'' \<and> rest \<noteq> []")
      case True
      then have a: "a = ''--speed''" and r: "rest \<noteq> []" by (rule conjunct1, rule conjunct2)
      show ?thesis unfolding Cons a pa_speed [OF r] by (rule ih [OF r2])
    next
      case n1: False
      show ?thesis
      proof (cases "a = ''--density'' \<and> rest \<noteq> []")
        case True
        then have a: "a = ''--density''" and r: "rest \<noteq> []" by (rule conjunct1, rule conjunct2)
        show ?thesis unfolding Cons a pa_density [OF r] by (rule disjI1) (rule refl)
      next
        case n2: False
        show ?thesis
        proof (cases "a = ''--bold''")
          case True
          show ?thesis unfolding Cons True pa_bold by (rule ih [OF r1])
        next
          case n3: False
          show ?thesis
          proof (cases "a = ''--no-fade''")
            case True
            show ?thesis unfolding Cons True pa_fade by (rule ih [OF r1])
          next
            case n4: False
            show ?thesis
            proof (cases "a = ''--fps'' \<and> rest \<noteq> []")
              case True
              then have a: "a = ''--fps''" and r: "rest \<noteq> []" by (rule conjunct1, rule conjunct2)
              show ?thesis unfolding Cons a pa_fps [OF r] by (rule ih [OF r2])
            next
              case n5: False
              show ?thesis unfolding Cons pa_other [OF n1 n2 n3 n4 n5]
                by (rule disjI1) (rule refl)
            qed
          qed
        qed
      qed
    qed
  qed
qed

lemma matrix_main_nan:
  assumes "atof v = NaN" "atof z = Num 0"
  shows "matrix_main atof atoi (prog # ''--density'' # v # rest) su fs =
         matrix_main atof atoi (prog # ''--density'' # z # rest) su fs"
proof -
  have p1: "parse_args atof atoi default_config (drop 1 (prog # ''--density'' # v # rest)) =
      parse_args atof atoi (default_config\<lparr>density := NaN\<rparr>) rest"
    using assms(1) by (simp add: Let_def)
  have p2: "parse_args atof atoi default_config (drop 1 (prog # ''--density'' # z # rest)) =
      parse_args atof atoi (default_config\<lparr>density := Num 0\<rparr>) rest"
    using assms(2) by (simp add: Let_def)
  have hd: "hd (prog # ''--density'' # v # rest) = prog" "hd (prog # ''--density'' # z # rest) = prog"
    by simp_all
  from parse_args_nan [of atof atoi default_config rest] show ?thesis
  proof
    assume "parse_args atof atoi (default_config\<lparr>density := NaN\<rparr>) rest =
      parse_args atof atoi (default_config\<lparr>density := Num 0\<rparr>) rest"
    then show ?thesis
      unfolding matrix_main_def p1 p2 hd by (simp only:)
  next
    assume "\<exists>c'. parse_args atof atoi (default_config\<lparr>density := NaN\<rparr>) rest
                 = Inr (c'\<lparr>density := NaN\<rparr>) \<and>
               parse_args atof atoi (default_config\<lparr>density := Num 0\<rparr>) rest
                 = Inr (c'\<lparr>density := Num 0\<rparr>)"
    then obtain c' where
      a: "parse_args atof atoi (default_config\<lparr>density := NaN\<rparr>) rest
                 = Inr (c'\<lparr>density := NaN\<rparr>)"
      and b: "parse_args atof atoi (default_config\<lparr>density := Num 0\<rparr>) rest
                 = Inr (c'\<lparr>density := Num 0\<rparr>)"
      by blast
    show ?thesis
      unfolding matrix_main_def p1 p2 hd a b sum.case init_columns_nan main_loop_nan ..
  qed
qed

text \<open>
  A run of one frame with \<open>--density 0\<close>: one column, 24 rows, seed source 0, no key, no
  resize.
\<close>

lemma idle_args:
  "parse_args atof_sample atoi_sample default_config (drop 1 [''matrix'', ''--density'', ''0'']) =
     Inr \<lparr>speed_mul = Num 1, density = Num 0, bold_head = False, fade_trail = True,
          target_fps = 60\<rparr>"
  by (simp add: atof_sample_def default_config_def)

lemma idle_init:
  "init_column
     \<lparr>speed_mul = Num 1, density = Num 0, bold_head = False, fade_trail = True,
      target_fps = 60\<rparr> 24 \<lparr>s = 0, seed_src = 0\<rparr> =
     Inr (\<lparr>head_y = - 23, tail = 14, speed = Num (10705755324 / 7158278825), active = False\<rparr>,
          \<lparr>s = 1155177853061972039, seed_src = 0\<rparr>)"
  by (simp add: init_column_eq drawsZ fresh_column_def float_of_def
      int_of_def UINT32_MAX_def INT_MAX_def)

lemma idle_tick:
  "tick_column
     \<lparr>speed_mul = Num 1, density = Num 0, bold_head = False, fade_trail = True,
      target_fps = 60\<rparr> 24
     \<lparr>head_y = - 23, tail = 14, speed = Num (10705755324 / 7158278825), active = False\<rparr>
     \<lparr>s = 1155177853061972039, seed_src = 0\<rparr> =
   Inr (\<lparr>head_y = - 23, tail = 14, speed = Num (10705755324 / 7158278825), active = False\<rparr>,
        \<lparr>s = 1445850576522678774, seed_src = 0\<rparr>)"
  by (simp add: tick_column_def drand_eq draw_at_def stepB5 float_of_def UINT32_MAX_def)

lemma idle_run:
  "matrix_main atof_sample atoi_sample [''matrix'', ''--density'', ''0'']
     \<lparr>maxy0 = 24, maxx0 = 1, alloc0 = True, seed0 = 0\<rparr>
     [\<lparr>key = - 1, ny = 24, nx = 1, alloc_ok = True\<rparr>] =
   Running \<lparr>cols = [\<lparr>head_y = - 23, tail = 14, speed = Num (10705755324 / 7158278825),
                       active = False\<rparr>],
            maxx = 1, maxy = 24, paused = False,
            rng = \<lparr>s = 1445850576522678774, seed_src = 0\<rparr>\<rparr> [Initscr]"
  unfolding matrix_main_def idle_args
  by (simp add: idle_init iteration_def handle_resize_def idle_tick draw_column_def)

text \<open>
  C9 says that every value of the \<open>--density\<close> argument is clamped into \<open>[0, 1]\<close>.
  For the argument \<open>nan\<close>, \<open>atof\<close> returns NaN, both comparisons of the clamp are
  false, and parsing ends with a density of NaN, which is not in \<open>[0, 1]\<close>.
\<close>

theorem density_nan_not_clamped:
  "parse_args atof_sample atoi_sample default_config [''--density'', ''nan''] =
     Inr \<lparr>speed_mul = Num 1, density = NaN, bold_head = False, fade_trail = True,
          target_fps = 60\<rparr>"
  by (simp add: atof_sample_def default_config_def)

text \<open>
  C9 amended: every \<open>--density\<close> value that is not NaN is clamped into \<open>[0, 1]\<close> during
  parsing (0 for a value below 0, 1 for a value above 1, the value itself otherwise); a
  NaN value is kept, and the program then behaves exactly as with \<open>--density 0\<close>: the
  same result for every startup and every list of frames. In both cases parsing goes on
  with the remaining arguments, so the value never causes the usage exit.
\<close>

theorem density_clamp_amended:
  "(atof v \<noteq> NaN \<longrightarrow>
      (\<exists>d. parse_args atof atoi cfg (''--density'' # v # rest) =
              parse_args atof atoi (cfg\<lparr>density := Num d\<rparr>) rest \<and>
           0 \<le> d \<and> d \<le> 1 \<and>
           (dlt (atof v) (Num 0) \<longrightarrow> d = 0) \<and>
           (dlt (Num 1) (atof v) \<longrightarrow> d = 1) \<and>
           (\<forall>x. atof v = Num x \<and> 0 \<le> x \<and> x \<le> 1 \<longrightarrow> d = x))) \<and>
   (atof v = NaN \<longrightarrow>
      parse_args atof atoi cfg (''--density'' # v # rest) =
        parse_args atof atoi (cfg\<lparr>density := NaN\<rparr>) rest \<and>
      (\<forall>z prog su fs. atof z = Num 0 \<longrightarrow>
         matrix_main atof atoi (prog # ''--density'' # v # rest) su fs =
         matrix_main atof atoi (prog # ''--density'' # z # rest) su fs))"
proof (intro conjI impI allI)
  assume "atof v \<noteq> NaN"
  then show "\<exists>d. parse_args atof atoi cfg (''--density'' # v # rest) =
              parse_args atof atoi (cfg\<lparr>density := Num d\<rparr>) rest \<and>
           0 \<le> d \<and> d \<le> 1 \<and>
           (dlt (atof v) (Num 0) \<longrightarrow> d = 0) \<and>
           (dlt (Num 1) (atof v) \<longrightarrow> d = 1) \<and>
           (\<forall>x. atof v = Num x \<and> 0 \<le> x \<and> x \<le> 1 \<longrightarrow> d = x)"
    by (rule density_clamp_non_nan)
next
  assume "atof v = NaN"
  then show "parse_args atof atoi cfg (''--density'' # v # rest) =
        parse_args atof atoi (cfg\<lparr>density := NaN\<rparr>) rest"
    by (simp add: Let_def)
next
  fix z prog su fs
  assume "atof v = NaN" "atof z = Num 0"
  then show "matrix_main atof atoi (prog # ''--density'' # v # rest) su fs =
         matrix_main atof atoi (prog # ''--density'' # z # rest) su fs"
    by (rule matrix_main_nan)
qed

theorem density_clamp_amended_witness:
  "atof_sample ''7'' \<noteq> NaN \<and> dlt (Num 1) (atof_sample ''7'') \<and>
   parse_args atof_sample atoi_sample default_config [''--density'', ''7''] =
     Inr \<lparr>speed_mul = Num 1, density = Num 1, bold_head = False, fade_trail = True,
          target_fps = 60\<rparr> \<and>
   atof_sample ''nan'' = NaN \<and> atof_sample ''0'' = Num 0 \<and>
   matrix_main atof_sample atoi_sample [''matrix'', ''--density'', ''nan'']
     \<lparr>maxy0 = 24, maxx0 = 1, alloc0 = True, seed0 = 0\<rparr>
     [\<lparr>key = - 1, ny = 24, nx = 1, alloc_ok = True\<rparr>] =
   Running \<lparr>cols = [\<lparr>head_y = - 23, tail = 14, speed = Num (10705755324 / 7158278825),
                       active = False\<rparr>],
            maxx = 1, maxy = 24, paused = False,
            rng = \<lparr>s = 1445850576522678774, seed_src = 0\<rparr>\<rparr> [Initscr]"
proof -
  have n: "atof_sample ''nan'' = NaN" and z: "atof_sample ''0'' = Num 0"
    and s: "atof_sample ''7'' = Num 7"
    by (simp_all add: atof_sample_def)
  have clamp: "parse_args atof_sample atoi_sample default_config [''--density'', ''7''] =
     Inr \<lparr>speed_mul = Num 1, density = Num 1, bold_head = False, fade_trail = True,
          target_fps = 60\<rparr>"
    using density_clamp_amended [of atof_sample "''7''" atoi_sample default_config "[]"] s
    by (auto simp: default_config_def)
  have "matrix_main atof_sample atoi_sample [''matrix'', ''--density'', ''nan'']
     \<lparr>maxy0 = 24, maxx0 = 1, alloc0 = True, seed0 = 0\<rparr>
     [\<lparr>key = - 1, ny = 24, nx = 1, alloc_ok = True\<rparr>] =
    matrix_main atof_sample atoi_sample [''matrix'', ''--density'', ''0'']
     \<lparr>maxy0 = 24, maxx0 = 1, alloc0 = True, seed0 = 0\<rparr>
     [\<lparr>key = - 1, ny = 24, nx = 1, alloc_ok = True\<rparr>]"
    using density_clamp_amended [of atof_sample "''nan''" atoi_sample default_config "[]"] n z
    by blast
  with n z s clamp show ?thesis
    by (simp add: idle_run)
qed

subsection \<open>C10: a speed multiplier that is not positive\<close>

lemma dle_zero_cases:
  assumes "dle d (Num 0)"
  shows "dlt d (Num 1)" "0 \<le> x \<Longrightarrow> \<not> dlt (Num x) d"
  using assms by (cases d; simp)+

lemma dmul_nonpos:
  assumes "0 < a" "dle m (Num 0)"
  shows "dle (dmul (Num a) m) (Num 0)"
  using assms by (cases m) (simp_all add: mult_le_0_iff)

lemma fresh_column_at_rest:
  assumes "dle (speed_mul cfg) (Num 0)" "0 \<le> sp" "0 \<le> t" "t < 20" "0 \<le> d" "d + 24 \<le> INT_MAX"
  shows "at_rest (fresh_column cfg a t sp d)" "at_rest ((fresh_column cfg a t sp d)\<lparr>active := b\<rparr>)"
proof -
  have "0 < 0.4 + sp * 1.2" using assms(2) by (simp add: add_pos_nonneg)
  then have "dle (dmul (Num (0.4 + sp * 1.2)) (speed_mul cfg)) (Num 0)"
    using assms(1) by (rule dmul_nonpos)
  moreover have "INT_MIN + 24 \<le> - d"
    using assms(6) by (simp add: INT_MIN_def INT_MAX_def)
  ultimately show "at_rest (fresh_column cfg a t sp d)"
    "at_rest ((fresh_column cfg a t sp d)\<lparr>active := b\<rparr>)"
    using assms(3-5) by (simp_all add: at_rest_def)
qed

lemma rows_ok_pos: "rows_ok rows \<Longrightarrow> rows \<noteq> 0 \<Longrightarrow> 0 < rows \<and> rows \<le> INT_MAX"
  by (simp add: rows_ok_def)

lemma int_of_rows_ok:
  assumes "rows_ok rows" "rows \<noteq> 0"
  shows "0 \<le> int_of rows u" "int_of rows u + 24 \<le> INT_MAX"
proof -
  have r: "0 < rows" "rows \<le> INT_MAX" using rows_ok_pos [OF assms] by simp_all
  show "0 \<le> int_of rows u" using r by (rule int_of_range)
  have "int_of rows u < rows" using r by (rule int_of_range)
  then show "int_of rows u + 24 \<le> INT_MAX" using assms(1) by (simp add: rows_ok_def)
qed

lemma init_column_at_rest:
  assumes "dle (speed_mul cfg) (Num 0)" "rows_ok rows" "init_column cfg rows g = Inr (c, g')"
  shows "at_rest c"
proof (cases "rows = 0")
  case True
  with assms(3) show ?thesis by (simp add: init_column_zero_rows)
next
  case False
  have r: "0 < rows" "rows \<le> INT_MAX" using rows_ok_pos [OF assms(2) False] by simp_all
  have "c = fresh_column cfg (float_of (draw_at 0 g)) (int_of 20 (draw_at 1 g))
           (float_of (draw_at 2 g)) (int_of rows (draw_at 3 g))"
    using assms(3) by (simp add: init_column_eq [OF r])
  then show ?thesis
    using fresh_column_at_rest(1) [OF assms(1)] int_of_rows_ok [OF assms(2) False]
    by (simp add: float_of_range int_of_range)
qed

lemma start_column_at_rest:
  assumes "dle (speed_mul cfg) (Num 0)" "rows_ok rows" "start_column cfg rows c g = Inr (c', g')"
  shows "at_rest c'"
proof (cases "rows = 0")
  case True
  with assms(3) show ?thesis by (simp add: start_column_zero_rows)
next
  case False
  have r: "0 < rows" "rows \<le> INT_MAX" using rows_ok_pos [OF assms(2) False] by simp_all
  have "c' = (fresh_column cfg 0 (int_of 20 (draw_at 1 g))
           (float_of (draw_at 2 g)) (int_of rows (draw_at 0 g)))\<lparr>active := True\<rparr>"
    using assms(3) by (simp add: start_column_eq [OF r])
  then show ?thesis
    using fresh_column_at_rest(2) [OF assms(1)] int_of_rows_ok [OF assms(2) False]
    by (simp add: float_of_range int_of_range)
qed

lemma tick_column_at_rest_active:
  assumes "at_rest c" "active c" "0 \<le> rows"
  shows "tick_column cfg rows c g = Inr (c, snd (rnd32 g))"
proof -
  have sp: "dlt (speed c) (Num 1)" "\<not> dlt (Num (float_of (draw_at 0 g))) (speed c)"
    using assms(1) dle_zero_cases [of "speed c"] by (simp_all add: at_rest_def float_of_range)
  have "is_int (head_y c)"
    using assms(1) by (simp add: at_rest_def is_int_def INT_MIN_def INT_MAX_def)
  then have adv: "advance_head c g = Inr (c, snd (rnd32 g))"
    using sp by (simp add: advance_head_slow)
  have "is_int (head_y c - tail c)" "\<not> rows < head_y c - tail c"
    using assms(1,3) by (simp_all add: at_rest_def is_int_def INT_MIN_def INT_MAX_def)
  with assms(2) adv show ?thesis
    by (rule tick_column_no_reset)
qed

lemma tick_column_at_rest:
  assumes "dle (speed_mul cfg) (Num 0)" "rows_ok rows" "at_rest c"
    "tick_column cfg rows c g = Inr (c', g')"
  shows "at_rest c'"
proof (cases "active c")
  case True
  have "0 \<le> rows" using assms(2) by (simp add: rows_ok_def)
  with assms(3) True have "tick_column cfg rows c g = Inr (c, snd (rnd32 g))"
    by (rule tick_column_at_rest_active)
  with assms(3,4) show ?thesis by simp
next
  case False
  with assms(4) have "start_column cfg rows c (after 1 g) = Inr (c', g') \<or> c' = c"
    by (auto simp: tick_column_def drand_eq split: if_splits)
  then show ?thesis
    using assms(3) start_column_at_rest [OF assms(1,2)] by blast
qed

lemma simulate_at_rest:
  assumes "0 \<le> rows" "\<forall>c\<in>set cs. at_rest c" "simulate cfg rows cs g = Inr (cs', g')"
  shows "length cs' = length cs \<and> (\<forall>i<length cs. active (cs ! i) \<longrightarrow> cs' ! i = cs ! i)"
  using assms(2,3)
proof (induction cs arbitrary: g cs')
  case Nil
  then show ?case by simp
next
  case (Cons c cs)
  from Cons.prems(2) obtain c1 g1 cs1 where t: "tick_column cfg rows c g = Inr (c1, g1)"
    and s: "simulate cfg rows cs g1 = Inr (cs1, g')" and cs': "cs' = c1 # cs1"
    by (auto simp: bnd_eq_Inr)
  have c1: "active c \<longrightarrow> c1 = c"
    using tick_column_at_rest_active [of c rows cfg g] t Cons.prems(1) assms(1) by simp
  have ih: "length cs1 = length cs \<and> (\<forall>i<length cs. active (cs ! i) \<longrightarrow> cs1 ! i = cs ! i)"
    using Cons.IH [OF _ s] Cons.prems(1) by simp
  show ?case
  proof (intro conjI allI impI)
    show "length cs' = length (c # cs)" using ih by (simp add: cs')
    fix i
    assume "i < length (c # cs)" "active ((c # cs) ! i)"
    then show "cs' ! i = (c # cs) ! i"
      using c1 ih by (cases i) (simp_all add: cs')
  qed
qed

lemma iteration_at_rest:
  assumes "dle (speed_mul cfg) (Num 0)" "rows_ok (ny f)"
    and "nat (maxx st) \<le> length (cols st) \<and> rows_ok (maxy st) \<and> (\<forall>c\<in>set (cols st). at_rest c)"
    and "iteration cfg st f = Inr (Next st')"
  shows "nat (maxx st') \<le> length (cols st') \<and> rows_ok (maxy st') \<and>
     (\<forall>c\<in>set (cols st'). at_rest c)"
proof -
  from iteration_Next [OF assms(4)] obtain st1 st2
    where st1: "st1 = st \<or> st1 = st\<lparr>paused := \<not> paused st\<rparr>"
      and rs: "handle_resize cfg st1 f = Inr (Some st2)"
      and k: "st' = st2 \<or>
        (\<exists>cs g1 g2. simulate cfg (maxy st2) (cols st2) (rng st2) = Inr (cs, g1) \<and>
           st' = st2\<lparr>cols := cs, rng := g2\<rparr>)"
    by blast
  have i1: "nat (maxx st1) \<le> length (cols st1)" "rows_ok (maxy st1)"
    "\<forall>c\<in>set (cols st1). at_rest c"
    using st1 assms(3) by auto
  have i2: "nat (maxx st2) \<le> length (cols st2) \<and> rows_ok (maxy st2) \<and>
      (\<forall>c\<in>set (cols st2). at_rest c)"
    using handle_resize_cols [OF rs i1(1)]
  proof
    assume "st2 = st1"
    with i1 show ?thesis by simp
  next
    assume h: "nat (maxx st2) \<le> length (cols st2) \<and> paused st2 = paused st1 \<and>
     (maxy st2 = maxy st1 \<or> maxy st2 = ny f) \<and>
     (\<exists>new g. init_columns cfg (ny f) (nat (nx f - maxx st1)) (rng st1) = Inr (new, g) \<and>
        set (cols st2) \<subseteq> set (cols st1) \<union> set new)"
    then obtain new g
      where new: "init_columns cfg (ny f) (nat (nx f - maxx st1)) (rng st1) = Inr (new, g)"
        and sub: "set (cols st2) \<subseteq> set (cols st1) \<union> set new"
      by blast
    have "\<forall>c\<in>set new. at_rest c"
      using init_column_at_rest [OF assms(1,2)] new by (rule init_columns_result)
    moreover have "rows_ok (maxy st2)"
      using h i1(2) assms(2) by auto
    ultimately show ?thesis
      using sub i1(3) h by blast
  qed
  from k show ?thesis
  proof
    assume "st' = st2"
    with i2 show ?thesis by simp
  next
    assume "\<exists>cs g1 g2. simulate cfg (maxy st2) (cols st2) (rng st2) = Inr (cs, g1) \<and>
           st' = st2\<lparr>cols := cs, rng := g2\<rparr>"
    then obtain cs g1 g2 where sim: "simulate cfg (maxy st2) (cols st2) (rng st2) = Inr (cs, g1)"
      and st': "st' = st2\<lparr>cols := cs, rng := g2\<rparr>"
      by blast
    have r2: "rows_ok (maxy st2)" using i2 by simp
    have "\<forall>c\<in>set (cols st2). at_rest c"
      using i2 by simp
    with tick_column_at_rest [OF assms(1) r2]
    have "(\<forall>c\<in>set cs. at_rest c) \<and> length cs = length (cols st2)"
      using sim by (rule simulate_result)
    with i2 show ?thesis by (simp add: st')
  qed
qed

text \<open>
  A run of one frame with \<open>--speed -3\<close>: one column, 24 rows, seed source 0, no key,
  no resize.
\<close>

lemma slow_args:
  "parse_args atof_sample atoi_sample default_config (drop 1 [''matrix'', ''--speed'', ''-3'']) =
     Inr \<lparr>speed_mul = Num (- 3), density = Num (1 / 4), bold_head = False, fade_trail = True,
          target_fps = 60\<rparr>"
  by (simp add: atof_sample_def default_config_def)

lemma slow_init:
  "init_column
     \<lparr>speed_mul = Num (- 3), density = Num (1 / 4), bold_head = False, fade_trail = True,
      target_fps = 60\<rparr> 24 \<lparr>s = 0, seed_src = 0\<rparr> =
     Inr (\<lparr>head_y = - 23, tail = 14, speed = Num (- (32117265972 / 7158278825)), active = True\<rparr>,
          \<lparr>s = 1155177853061972039, seed_src = 0\<rparr>)"
  by (simp add: init_column_eq drawsZ fresh_column_def float_of_def
      int_of_def UINT32_MAX_def INT_MAX_def)

lemma slow_tick:
  "tick_column cfg 24
     \<lparr>head_y = - 23, tail = 14, speed = Num (- (32117265972 / 7158278825)), active = True\<rparr>
     \<lparr>s = 1155177853061972039, seed_src = 0\<rparr> =
   Inr (\<lparr>head_y = - 23, tail = 14, speed = Num (- (32117265972 / 7158278825)), active = True\<rparr>,
        \<lparr>s = 1445850576522678774, seed_src = 0\<rparr>)"
  by (simp add: tick_column_active advance_head_slow drand_eq draw_at_def stepB5 float_of_def
      UINT32_MAX_def is_int_def INT_MAX_def INT_MIN_def)

lemma slow_draw:
  "draw_column 24
     \<lparr>head_y = - 23, tail = 14, speed = Num (- (32117265972 / 7158278825)), active = True\<rparr>
     \<lparr>s = 1445850576522678774, seed_src = 0\<rparr> = Inr \<lparr>s = 1445850576522678774, seed_src = 0\<rparr>"
  by (simp add: draw_column_def is_int_def INT_MAX_def INT_MIN_def)

lemma slow_run:
  "matrix_main atof_sample atoi_sample [''matrix'', ''--speed'', ''-3'']
     \<lparr>maxy0 = 24, maxx0 = 1, alloc0 = True, seed0 = 0\<rparr>
     [\<lparr>key = - 1, ny = 24, nx = 1, alloc_ok = True\<rparr>] =
   Running \<lparr>cols = [\<lparr>head_y = - 23, tail = 14, speed = Num (- (32117265972 / 7158278825)),
                       active = True\<rparr>],
            maxx = 1, maxy = 24, paused = False,
            rng = \<lparr>s = 1445850576522678774, seed_src = 0\<rparr>\<rparr> [Initscr]"
  unfolding matrix_main_def slow_args
  by (simp add: slow_init iteration_def handle_resize_def slow_tick slow_draw)

text \<open>
  C10: with a speed multiplier \<open>\<le> 0\<close>, in every state a run reaches (the viewport
  heights being non-negative \<open>int\<close>s, \<open>rows_ok\<close>), every column has a speed \<open>\<le> 0\<close>; for
  every active column the reset condition is false, and a tick from any generator state
  returns the column unchanged (the Bernoulli draw is made and never fires). The second
  part says the same of the whole simulation loop: each column that is active before
  the loop is identical after it.
\<close>

theorem nonpositive_speed_freezes:
  assumes "parse_args atof atoi default_config (drop 1 argv) = Inr cfg"
    and "dle (speed_mul cfg) (Num 0)"
    and "rows_ok (maxy0 su)" and "\<forall>f\<in>set frames. rows_ok (ny f)"
    and "matrix_main atof atoi argv su frames = Running st effs"
  shows "(\<forall>c\<in>set (cols st). dle (speed c) (Num 0) \<and>
            (active c \<longrightarrow> \<not> maxy st < head_y c - tail c \<and>
               (\<forall>g. tick_column cfg (maxy st) c g = Inr (c, snd (rnd32 g))))) \<and>
         (\<forall>g cs' g'. simulate cfg (maxy st) (cols st) g = Inr (cs', g') \<longrightarrow>
            length cs' = length (cols st) \<and>
            (\<forall>i<length (cols st). active (cols st ! i) \<longrightarrow> cs' ! i = cols st ! i))"
proof -
  from matrix_main_Running [OF assms(5)] assms(1) obtain cs g
    where init: "init_columns cfg (maxy0 su) (nat (maxx0 su)) \<lparr>s = 0, seed_src = seed0 su\<rparr>
                   = Inr (cs, g)"
      and loop: "main_loop cfg
                   \<lparr>cols = cs, maxx = maxx0 su, maxy = maxy0 su, paused = False, rng = g\<rparr> frames
                   = Inr (Next st)"
    by auto
  let ?I = "\<lambda>st. nat (maxx st) \<le> length (cols st) \<and> rows_ok (maxy st) \<and>
              (\<forall>c\<in>set (cols st). at_rest c)"
  have "\<forall>c\<in>set cs. at_rest c"
    using init_column_at_rest [OF assms(2,3)] init by (rule init_columns_result)
  moreover have "length cs = nat (maxx0 su)"
    using init by (rule init_columns_length)
  ultimately have "?I \<lparr>cols = cs, maxx = maxx0 su, maxy = maxy0 su, paused = False, rng = g\<rparr>"
    using assms(3) by simp
  then have I: "?I st"
    using loop
  proof (rule main_loop_invariant [where I = ?I, rotated])
    fix st f st'
    assume "?I st" "f \<in> set frames" "iteration cfg st f = Inr (Next st')"
    moreover from \<open>f \<in> set frames\<close> have "rows_ok (ny f)" using assms(4) by simp
    ultimately show "?I st'"
      using iteration_at_rest [OF assms(2)] by blast
  qed
  then have rows: "0 \<le> maxy st" by (simp add: rows_ok_def)
  show ?thesis
  proof (intro conjI ballI allI impI)
    fix c
    assume c: "c \<in> set (cols st)"
    then have r: "at_rest c" using I by simp
    then show "dle (speed c) (Num 0)" by (simp add: at_rest_def)
    assume a: "active c"
    show "\<not> maxy st < head_y c - tail c"
      using r rows by (simp add: at_rest_def)
    fix g
    show "tick_column cfg (maxy st) c g = Inr (c, snd (rnd32 g))"
      using r a rows by (rule tick_column_at_rest_active)
  next
    fix g cs' g'
    assume "simulate cfg (maxy st) (cols st) g = Inr (cs', g')"
    with rows I have *: "length cs' = length (cols st) \<and>
        (\<forall>i<length (cols st). active (cols st ! i) \<longrightarrow> cs' ! i = cols st ! i)"
      by (intro simulate_at_rest) simp_all
    then show "length cs' = length (cols st)" by simp
    fix i
    assume "i < length (cols st)" "active (cols st ! i)"
    with * show "cs' ! i = cols st ! i" by simp
  qed
qed

theorem nonpositive_speed_freezes_witness:
  "parse_args atof_sample atoi_sample default_config (drop 1 [''matrix'', ''--speed'', ''-3'']) =
     Inr \<lparr>speed_mul = Num (- 3), density = Num (1 / 4), bold_head = False, fade_trail = True,
          target_fps = 60\<rparr> \<and>
   dle (speed_mul \<lparr>speed_mul = Num (- 3), density = Num (1 / 4), bold_head = False,
                  fade_trail = True, target_fps = 60\<rparr>) (Num 0) \<and>
   rows_ok 24 \<and>
   rows_ok (ny \<lparr>key = - 1, ny = 24, nx = 1, alloc_ok = True\<rparr>) \<and>
   matrix_main atof_sample atoi_sample [''matrix'', ''--speed'', ''-3'']
     \<lparr>maxy0 = 24, maxx0 = 1, alloc0 = True, seed0 = 0\<rparr>
     [\<lparr>key = - 1, ny = 24, nx = 1, alloc_ok = True\<rparr>] =
   Running \<lparr>cols = [\<lparr>head_y = - 23, tail = 14, speed = Num (- (32117265972 / 7158278825)),
                       active = True\<rparr>],
            maxx = 1, maxy = 24, paused = False,
            rng = \<lparr>s = 1445850576522678774, seed_src = 0\<rparr>\<rparr> [Initscr] \<and>
   (\<forall>g. tick_column
          \<lparr>speed_mul = Num (- 3), density = Num (1 / 4), bold_head = False, fade_trail = True,
           target_fps = 60\<rparr> 24
          \<lparr>head_y = - 23, tail = 14, speed = Num (- (32117265972 / 7158278825)), active = True\<rparr> g =
        Inr (\<lparr>head_y = - 23, tail = 14, speed = Num (- (32117265972 / 7158278825)),
              active = True\<rparr>, snd (rnd32 g)))"
proof -
  have rows: "rows_ok 24" by (simp add: rows_ok_def INT_MAX_def)
  show ?thesis
    using nonpositive_speed_freezes [OF slow_args _ _ _ slow_run] rows
    by (simp add: slow_run atof_sample_def default_config_def)
qed

end
